theory Spec2Isabelle
  imports Complex_Main "HOL-Library.AList"
begin

section \<open>Python values and errors\<close>

text \<open>
  The module \<^verbatim>\<open>nanodet/util/logger.py\<close> is embedded function by function.
  Python numbers that are confidences, coordinates or running sums are modelled as
  exact reals (the idealisation of Python floats), Python integers as \<open>int\<close>.
  Every exception the source can raise is a value of \<open>py_error\<close>; a function that
  can raise returns \<open>py_error + 'a\<close> with \<open>Inl\<close> for the exception.
\<close>

datatype py_error = IndexError | KeyError | TypeError | ValueError
  | ZeroDivisionError | AttributeError | ImportError | AssertionError

definition bindE :: "py_error + 'a \<Rightarrow> ('a \<Rightarrow> py_error + 'b) \<Rightarrow> py_error + 'b" where
  "bindE m f = (case m of Inl e \<Rightarrow> Inl e | Inr x \<Rightarrow> f x)"

text \<open>
  Python's list index: \<open>i\<close> from 0 up to the length reads from the front, \<open>i\<close> from
  minus the length up to -1 reads from the end, anything else raises IndexError.
\<close>

definition py_index :: "nat \<Rightarrow> int \<Rightarrow> nat option" where
  "py_index len i =
     (if 0 \<le> i \<and> i < int len then Some (nat i)
      else if i < 0 \<and> - int len \<le> i then Some (nat (int len + i))
      else None)"

text \<open>\<^verbatim>\<open>xs[i]\<close> and \<^verbatim>\<open>xs[i] = v\<close>.\<close>

definition py_getitem :: "'a list \<Rightarrow> int \<Rightarrow> py_error + 'a" where
  "py_getitem xs i =
     (case py_index (length xs) i of Some j \<Rightarrow> Inr (xs ! j) | None \<Rightarrow> Inl IndexError)"

definition py_setitem :: "'a list \<Rightarrow> int \<Rightarrow> 'a \<Rightarrow> py_error + 'a list" where
  "py_setitem xs i v =
     (case py_index (length xs) i of Some j \<Rightarrow> Inr (xs[j := v]) | None \<Rightarrow> Inl IndexError)"

text \<open>Python's \<^verbatim>\<open>xs[:n]\<close>: a negative bound drops that many elements from the end.\<close>

definition py_slice_to :: "'a list \<Rightarrow> int \<Rightarrow> 'a list" where
  "py_slice_to xs n = (if 0 \<le> n then take (nat n) xs else take (length xs - nat (- n)) xs)"

text \<open>Python's true division \<^verbatim>\<open>a / b\<close> on numbers.\<close>

definition py_truediv :: "real \<Rightarrow> real \<Rightarrow> py_error + real" where
  "py_truediv a b = (if b = 0 then Inl ZeroDivisionError else Inr (a / b))"

section \<open>RunningStatistic: the windowed moving average\<close>

text \<open>
  \<^verbatim>\<open>class MovingAverage\<close>: the object's fields are \<^verbatim>\<open>window_size\<close> and \<^verbatim>\<open>queue\<close>.
\<close>

record MovingAverage =
  window_size :: int
  queue :: "real list"

definition MovingAverage_reset :: "MovingAverage \<Rightarrow> MovingAverage" where
  "MovingAverage_reset self = self\<lparr>queue := []\<rparr>"

text \<open>
  \<^verbatim>\<open>push\<close>: append, then \<^verbatim>\<open>pop(0)\<close> when the length exceeds the window. The list is not
  empty after the append, so \<^verbatim>\<open>pop(0)\<close> cannot raise and removes the head.
\<close>

definition MovingAverage_push :: "MovingAverage \<Rightarrow> real \<Rightarrow> MovingAverage" where
  "MovingAverage_push self v =
     (let q = queue self @ [v]
      in if int (length q) > window_size self then self\<lparr>queue := tl q\<rparr> else self\<lparr>queue := q\<rparr>)"

text \<open>\<^verbatim>\<open>__init__(self, val, window_size=50)\<close>: set the window, reset, push.\<close>

definition MovingAverage_init :: "real \<Rightarrow> int \<Rightarrow> MovingAverage" where
  "MovingAverage_init v w =
     MovingAverage_push (MovingAverage_reset \<lparr>window_size = w, queue = []\<rparr>) v"

text \<open>
  \<^verbatim>\<open>avg\<close> returns \<^verbatim>\<open>np.mean(self.queue)\<close>. The source has no check of its own; numpy's
  mean of an empty sequence is the float NaN (numpy emits a RuntimeWarning and returns),
  so the result type has a NaN beside the finite values.
\<close>

datatype np_float = Finite real | NaN

definition np_mean :: "real list \<Rightarrow> np_float" where
  "np_mean xs = (if xs = [] then NaN else Finite (sum_list xs / real (length xs)))"

definition MovingAverage_avg :: "MovingAverage \<Rightarrow> py_error + np_float" where
  "MovingAverage_avg self = Inr (np_mean (queue self))"

text \<open>A caller's sequence of calls on one object.\<close>

datatype ma_op = Push real | Reset

fun ma_apply :: "MovingAverage \<Rightarrow> ma_op \<Rightarrow> MovingAverage" where
  "ma_apply self (Push v) = MovingAverage_push self v"
| "ma_apply self Reset = MovingAverage_reset self"

definition ma_run :: "MovingAverage \<Rightarrow> ma_op list \<Rightarrow> MovingAverage" where
  "ma_run self ops = foldl ma_apply self ops"

text \<open>
  The values pushed since the most recent reset, oldest first; the first argument is the
  pushes already seen.
\<close>

fun pushes_since_reset :: "real list \<Rightarrow> ma_op list \<Rightarrow> real list" where
  "pushes_since_reset ps [] = ps"
| "pushes_since_reset ps (Push v # ops) = pushes_since_reset (ps @ [v]) ops"
| "pushes_since_reset ps (Reset # ops) = pushes_since_reset [] ops"

section \<open>RunningStatistic: the cumulative average\<close>

text \<open>
  \<^verbatim>\<open>class AverageMeter\<close> with the fields \<^verbatim>\<open>val\<close>, \<^verbatim>\<open>avg\<close>, \<^verbatim>\<open>sum\<close>, \<^verbatim>\<open>count\<close>
  (prefixed here, \<open>sum\<close> and \<open>count\<close> being constants of HOL). The multiplicity
  \<^verbatim>\<open>n\<close> is a Python integer.
\<close>

record AverageMeter =
  am_val :: real
  am_avg :: real
  am_sum :: real
  am_count :: int

definition AverageMeter_reset :: "AverageMeter \<Rightarrow> AverageMeter" where
  "AverageMeter_reset self = self\<lparr>am_val := 0, am_avg := 0, am_sum := 0, am_count := 0\<rparr>"

text \<open>
  \<^verbatim>\<open>update(self, val, n=1)\<close>. The division is Python's, which raises on a zero divisor,
  so the model can return \<open>Inl ZeroDivisionError\<close> wherever the source could.
\<close>

definition AverageMeter_update :: "AverageMeter \<Rightarrow> real \<Rightarrow> int \<Rightarrow> py_error + AverageMeter" where
  "AverageMeter_update self v n =
     (let s1 = self\<lparr>am_val := v\<rparr>;
          s2 = s1\<lparr>am_sum := am_sum s1 + v * of_int n\<rparr>;
          s3 = s2\<lparr>am_count := am_count s2 + n\<rparr>
      in if am_count s3 > 0
         then bindE (py_truediv (am_sum s3) (of_int (am_count s3))) (\<lambda>a. Inr (s3\<lparr>am_avg := a\<rparr>))
         else Inr s3)"

text \<open>\<^verbatim>\<open>__init__(self, val)\<close>: reset, then \<^verbatim>\<open>update(val)\<close> with the default \<^verbatim>\<open>n = 1\<close>.\<close>

definition AverageMeter_init :: "real \<Rightarrow> py_error + AverageMeter" where
  "AverageMeter_init v =
     AverageMeter_update
       (AverageMeter_reset \<lparr>am_val = 0, am_avg = 0, am_sum = 0, am_count = 0\<rparr>) v 1"

datatype am_op = Update real int | ResetMeter

fun am_apply :: "AverageMeter \<Rightarrow> am_op \<Rightarrow> py_error + AverageMeter" where
  "am_apply self (Update v n) = AverageMeter_update self v n"
| "am_apply self ResetMeter = Inr (AverageMeter_reset self)"

fun am_run :: "py_error + AverageMeter \<Rightarrow> am_op list \<Rightarrow> py_error + AverageMeter" where
  "am_run r [] = r"
| "am_run r (x # xs) = am_run (bindE r (\<lambda>self. am_apply self x)) xs"

text \<open>The updates since the most recent reset, as pairs of value and multiplicity.\<close>

fun updates_since_reset :: "(real \<times> int) list \<Rightarrow> am_op list \<Rightarrow> (real \<times> int) list" where
  "updates_since_reset us [] = us"
| "updates_since_reset us (Update v n # ops) = updates_since_reset (us @ [(v, n)]) ops"
| "updates_since_reset us (ResetMeter # ops) = updates_since_reset [] ops"

definition weighted_total :: "(real \<times> int) list \<Rightarrow> real" where
  "weighted_total us = sum_list (map (\<lambda>(v, n). v * of_int n) us)"

definition multiplicity_total :: "(real \<times> int) list \<Rightarrow> int" where
  "multiplicity_total us = sum_list (map snd us)"

section \<open>EvalPayloadBuilder: one validation sample\<close>

text \<open>
  A Python dict is an association list in insertion order (its keys are distinct);
  \<^verbatim>\<open>for k in d: ... d[k]\<close> walks its entries. A detection is the sequence that
  \<^verbatim>\<open>*xyxy, conf\<close> unpacks: all elements but the last, and the last.
\<close>

type_synonym detection = "real list"
type_synonym class_preds = "(int \<times> detection list) list"

text \<open>\<^verbatim>\<open>os.path.join\<close> is kept symbolic.\<close>

datatype path = Root string | Join path string

text \<open>
  The dict appended to \<^verbatim>\<open>box_data\<close>. The caption \<^verbatim>\<open>f"{classes[cls]} {conf:.3f}"\<close> is kept as
  the pair of the class name and the confidence that is formatted.
\<close>

record annotated_box =
  minX :: real
  minY :: real
  maxX :: real
  maxY :: real
  class_id :: int
  box_caption :: "string \<times> real"
  class_score :: real
  domain_tag :: string

text \<open>\<^verbatim>\<open>wandb.Image(sample_path, boxes=boxes, classes=wandb_classes)\<close>, by its arguments.\<close>

record wandb_image =
  image_path :: path
  box_data :: "annotated_box list"
  class_labels :: "(int \<times> string) list"
  wandb_classes :: "(int \<times> string) list"

datatype cell = CellId int | CellImage wandb_image | CellNum real

type_synonym row = "cell list"

text \<open>The three locals the loops mutate.\<close>

record sample_acc =
  acc_box_data :: "annotated_box list"
  avg_conf_per_class :: "real list"
  pred_class_count :: "(int \<times> int) list"

definition enumerate :: "'a list \<Rightarrow> (int \<times> 'a) list" where
  "enumerate xs = zip (map int [0..<length xs]) xs"

definition unpack_detection :: "detection \<Rightarrow> py_error + (real list \<times> real)" where
  "unpack_detection d = (if d = [] then Inl ValueError else Inr (butlast d, last d))"

text \<open>The body of the inner loop, lines 280 to 293.\<close>

definition detection_body :: "string list \<Rightarrow> int \<Rightarrow> sample_acc \<Rightarrow> detection \<Rightarrow> py_error + sample_acc" where
  "detection_body classes cls acc d =
     bindE (unpack_detection d) (\<lambda>(xyxy, conf).
       if conf \<ge> 0.25 then
         bindE (py_getitem xyxy 0) (\<lambda>x0.
         bindE (py_getitem xyxy 1) (\<lambda>x1.
         bindE (py_getitem xyxy 2) (\<lambda>x2.
         bindE (py_getitem xyxy 3) (\<lambda>x3.
         bindE (py_getitem classes cls) (\<lambda>name.
         let box = \<lparr>minX = x0, minY = x1, maxX = x2, maxY = x3, class_id = cls,
                    box_caption = (name, conf), class_score = conf, domain_tag = ''pixel''\<rparr>
         in
         bindE (py_getitem (avg_conf_per_class acc) cls) (\<lambda>a.
         bindE (py_setitem (avg_conf_per_class acc) cls (a + conf)) (\<lambda>avgs.
         Inr \<lparr>acc_box_data = acc_box_data acc @ [box],
              avg_conf_per_class = avgs,
              pred_class_count =
                (case map_of (pred_class_count acc) cls of
                   Some c \<Rightarrow> AList.update cls (c + 1) (pred_class_count acc)
                 | None \<Rightarrow> AList.update cls 1 (pred_class_count acc))\<rparr>)))))))
       else Inr acc)"

fun detections_loop :: "string list \<Rightarrow> int \<Rightarrow> detection list \<Rightarrow> sample_acc \<Rightarrow> py_error + sample_acc" where
  "detections_loop classes cls [] acc = Inr acc"
| "detections_loop classes cls (d # ds) acc =
     bindE (detection_body classes cls acc d) (detections_loop classes cls ds)"

fun classes_loop :: "string list \<Rightarrow> class_preds \<Rightarrow> sample_acc \<Rightarrow> py_error + sample_acc" where
  "classes_loop classes [] acc = Inr acc"
| "classes_loop classes ((cls, ds) # preds) acc =
     bindE (detections_loop classes cls ds acc) (classes_loop classes preds)"

text \<open>The loop of lines 295 and 296 over \<^verbatim>\<open>pred_class_count.keys()\<close>.\<close>

fun averages_loop :: "(int \<times> int) list \<Rightarrow> real list \<Rightarrow> py_error + real list" where
  "averages_loop [] avgs = Inr avgs"
| "averages_loop ((pred_class, n) # rest) avgs =
     bindE (py_getitem avgs pred_class) (\<lambda>a.
     bindE (py_truediv a (of_int n)) (\<lambda>q.
     bindE (py_setitem avgs pred_class q) (averages_loop rest)))"

definition log_eval_sample :: "int \<Rightarrow> path \<Rightarrow> class_preds \<Rightarrow> string list \<Rightarrow> py_error + row" where
  "log_eval_sample sample_id sample_path preds classes =
     (let acc0 = \<lparr>acc_box_data = [], avg_conf_per_class = replicate (length classes) 0,
                  pred_class_count = []\<rparr>
      in bindE (classes_loop classes preds acc0) (\<lambda>acc.
         bindE (averages_loop (pred_class_count acc) (avg_conf_per_class acc)) (\<lambda>avgs.
         Inr (CellId sample_id
              # CellImage \<lparr>image_path = sample_path, box_data = acc_box_data acc,
                           class_labels = enumerate classes, wandb_classes = enumerate classes\<rparr>
              # map CellNum avgs))))"

text \<open>
  What the claims say of a sample, in the spec's words: a detection qualifies when its
  confidence (its last element) is at least 0.25; the box of a qualifying detection; the
  qualifying confidences of one class.
\<close>

definition qualifies :: "detection \<Rightarrow> bool" where
  "qualifies d = (last d \<ge> 0.25)"

definition box_of :: "string list \<Rightarrow> int \<Rightarrow> detection \<Rightarrow> annotated_box" where
  "box_of classes cls d =
     \<lparr>minX = d ! 0, minY = d ! 1, maxX = d ! 2, maxY = d ! 3, class_id = cls,
      box_caption = (classes ! nat cls, last d), class_score = last d, domain_tag = ''pixel''\<rparr>"

definition expected_boxes :: "string list \<Rightarrow> class_preds \<Rightarrow> annotated_box list" where
  "expected_boxes classes preds =
     concat (map (\<lambda>(cls, ds). map (box_of classes cls) (filter qualifies ds)) preds)"

definition qualifying_confs :: "class_preds \<Rightarrow> int \<Rightarrow> real list" where
  "qualifying_confs preds c =
     concat (map (\<lambda>(cls, ds). if cls = c then map last (filter qualifies ds) else []) preds)"

definition expected_average :: "class_preds \<Rightarrow> int \<Rightarrow> real" where
  "expected_average preds c =
     (let qs = qualifying_confs preds c
      in if qs = [] then 0 else sum_list qs / real (length qs))"

text \<open>
  The inputs the sample builder is specified for: every class id is an index into the
  class names, every detection has the four coordinates and the confidence.
\<close>

definition valid_preds :: "string list \<Rightarrow> class_preds \<Rightarrow> bool" where
  "valid_preds classes preds =
     list_all (\<lambda>(cls, ds). 0 \<le> cls \<and> cls < int (length classes) \<and> list_all (\<lambda>d. 5 \<le> length d) ds)
       preds"

section \<open>The process, its rank and what it does to the outside\<close>

text \<open>
  Every call that leaves the process (a directory or file created, a line written to a
  file or the console, a call of the scalar-series writer, of the dataset provider or of
  the tracking service) is recorded in a trace, in order. \<^verbatim>\<open>rank_zero_only.rank\<close> is
  a global of the process.
\<close>

type_synonym metrics = "(string \<times> real) list"

datatype message = Text string | Hyperparams string | MetricsLine string metrics

datatype effect =
    Makedirs path
  | OpenLogFile path
  | LogFile path message
  | Console message
  | WriteFile path string
  | SummaryWriterOpen path
  | AddScalars string string real int
  | BuildDataset
  | LogTable string "string list" "row list"
  | WandbLogMetrics metrics int

record process =
  rank :: int
  tensorboard_installed :: bool
  trace :: "effect list"

definition emit :: "effect list \<Rightarrow> process \<Rightarrow> process" where
  "emit es p = p\<lparr>trace := trace p @ es\<rparr>"

text \<open>
  The decorator \<^verbatim>\<open>rank_zero_only\<close> of pytorch_lightning.utilities: the wrapped method
  runs when \<^verbatim>\<open>rank_zero_only.rank == 0\<close>; on any other rank the call returns
  \<^verbatim>\<open>None\<close> and the method's body is not entered. A method is a function from the
  object and the process to the outcome and the two afterwards.
\<close>

type_synonym 's py_method = "'s \<times> process \<Rightarrow> (py_error + unit) \<times> 's \<times> process"

definition rank_zero_only :: "'s py_method \<Rightarrow> 's py_method" where
  "rank_zero_only fn st = (if rank (snd st) = 0 then fn st else (Inr (), st))"

text \<open>Sequencing of two method bodies: an exception of the first skips the second.\<close>

definition thenM :: "'s py_method \<Rightarrow> 's py_method \<Rightarrow> 's py_method" where
  "thenM f g st = (case f st of (Inl e, st') \<Rightarrow> (Inl e, st') | (Inr u, st') \<Rightarrow> g st')"

section \<open>StructuredLogSink\<close>

text \<open>
  \<^verbatim>\<open>class NanoDetLightningLogger\<close>. \<open>ll_logger\<close> says whether the attribute
  \<^verbatim>\<open>self.logger\<close> exists (\<^verbatim>\<open>_init_logger\<close> sets it, on rank 0 only); \<open>ll_experiment\<close>
  whether \<^verbatim>\<open>self._experiment\<close> is not \<^verbatim>\<open>None\<close>.
\<close>

record lightning_sink =
  ll_name :: string
  ll_version :: string
  ll_log_dir :: path
  ll_logger :: bool
  ll_experiment :: bool

definition init_logger :: "lightning_sink py_method" where
  "init_logger =
     rank_zero_only (\<lambda>(self, p).
       (Inr (), self\<lparr>ll_logger := True\<rparr>, emit [OpenLogFile (Join (ll_log_dir self) ''logs.txt'')] p))"

text \<open>
  \<^verbatim>\<open>__init__\<close>: the version is the formatted start time, a parameter here; the name is
  the keyword argument \<^verbatim>\<open>name\<close> unless it is missing or empty.
\<close>

definition NanoDetLightningLogger_init ::
  "string \<Rightarrow> string option \<Rightarrow> string \<Rightarrow> process \<Rightarrow> (py_error + unit) \<times> lightning_sink \<times> process" where
  "NanoDetLightningLogger_init save_dir name version p =
     (let self = \<lparr>ll_name = (case name of None \<Rightarrow> ''NanoDet''
                                | Some n \<Rightarrow> if n = [] then ''NanoDet'' else n),
                  ll_version = version,
                  ll_log_dir = Join (Root save_dir) (''logs-'' @ version),
                  ll_logger = False, ll_experiment = False\<rparr>
      in init_logger (self, emit [Makedirs (ll_log_dir self)] p))"

text \<open>
  \<^verbatim>\<open>self.logger.info(msg)\<close>: the file handler on \<^verbatim>\<open>logs.txt\<close> was added first, the
  console handler second.
\<close>

definition logger_info :: "message \<Rightarrow> lightning_sink py_method" where
  "logger_info msg st =
     (case st of (self, p) \<Rightarrow>
        if ll_logger self
        then (Inr (), self, emit [LogFile (Join (ll_log_dir self) ''logs.txt'') msg, Console msg] p)
        else (Inl AttributeError, self, p))"

definition NanoDetLightningLogger_info :: "string \<Rightarrow> lightning_sink py_method" where
  "NanoDetLightningLogger_info string = rank_zero_only (logger_info (Text string))"

definition NanoDetLightningLogger_log :: "string \<Rightarrow> lightning_sink py_method" where
  "NanoDetLightningLogger_log string = rank_zero_only (logger_info (Text string))"

text \<open>\<^verbatim>\<open>dump_cfg\<close>: the argument is the text \<^verbatim>\<open>cfg_node.dump\<close> writes.\<close>

definition NanoDetLightningLogger_dump_cfg :: "string \<Rightarrow> lightning_sink py_method" where
  "NanoDetLightningLogger_dump_cfg cfg_node =
     rank_zero_only (\<lambda>(self, p).
       (Inr (), self, emit [WriteFile (Join (ll_log_dir self) ''train_cfg.yml'') cfg_node] p))"

text \<open>\<^verbatim>\<open>log_hyperparams\<close>: the argument is the text \<^verbatim>\<open>{params}\<close> formats to.\<close>

definition NanoDetLightningLogger_log_hyperparams :: "string \<Rightarrow> lightning_sink py_method" where
  "NanoDetLightningLogger_log_hyperparams params = rank_zero_only (logger_info (Hyperparams params))"

text \<open>
  The property \<^verbatim>\<open>experiment\<close> under its decorator \<^verbatim>\<open>rank_zero_experiment\<close>: off rank 0
  the caller gets a dummy whose methods do nothing; on rank 0 the writer is created at
  the first access.
\<close>

datatype writer = SummaryWriter | DummyExperiment

definition experiment_property :: "lightning_sink \<times> process \<Rightarrow> (py_error + writer) \<times> lightning_sink \<times> process" where
  "experiment_property st =
     (case st of (self, p) \<Rightarrow>
        if rank p \<noteq> 0 then (Inr DummyExperiment, self, p)
        else if ll_experiment self then (Inr SummaryWriter, self, p)
        else if rank p \<noteq> 0 then (Inl AssertionError, self, p)
        else if \<not> tensorboard_installed p then (Inl ImportError, self, p)
        else (Inr SummaryWriter, self\<lparr>ll_experiment := True\<rparr>,
              emit [SummaryWriterOpen (ll_log_dir self)] p))"

definition add_scalars :: "string \<Rightarrow> string \<Rightarrow> real \<Rightarrow> int \<Rightarrow> lightning_sink py_method" where
  "add_scalars tag phase v step st =
     (case experiment_property st of
        (Inl e, st') \<Rightarrow> (Inl e, st')
      | (Inr DummyExperiment, st') \<Rightarrow> (Inr (), st')
      | (Inr SummaryWriter, self, p) \<Rightarrow> (Inr (), self, emit [AddScalars tag phase v step] p))"

fun metrics_loop :: "string \<Rightarrow> int \<Rightarrow> metrics \<Rightarrow> lightning_sink py_method" where
  "metrics_loop pre step [] st = (Inr (), st)"
| "metrics_loop pre step ((k, v) # rest) st =
     thenM (add_scalars (pre @ k) ''Val'' v step) (metrics_loop pre step rest) st"

definition NanoDetLightningLogger_log_metrics :: "metrics \<Rightarrow> int \<Rightarrow> string \<Rightarrow> lightning_sink py_method" where
  "NanoDetLightningLogger_log_metrics metrics step pre =
     rank_zero_only (thenM (logger_info (MetricsLine pre metrics)) (metrics_loop pre step metrics))"

section \<open>TrackingServiceSink and the eval table\<close>

text \<open>
  The configuration as far as the sink reads it. \<^verbatim>\<open>build_dataset\<close> belongs to
  \<^verbatim>\<open>nanodet.data.dataset\<close>; the records it yields for \<^verbatim>\<open>cfg.data.val\<close> are a parameter,
  each as the pair of \<^verbatim>\<open>img_info['id']\<close> and \<^verbatim>\<open>img_info['file_name']\<close>.
\<close>

record cfg =
  class_names :: "string list"
  val_img_path :: string
  val_dataset :: "(int \<times> string) list"

type_synonym results = "(int \<times> class_preds) list"

text \<open>
  \<^verbatim>\<open>class NanoDetWandbLogger\<close>: \<^verbatim>\<open>_id_to_name\<close> is \<^verbatim>\<open>None\<close> or a dict.
\<close>

record wandb_sink =
  num_eval_samples :: int
  id_to_name :: "(int \<times> string) list option"
  prefix :: string

definition NanoDetWandbLogger_init :: "int \<Rightarrow> wandb_sink" where
  "NanoDetWandbLogger_init n = \<lparr>num_eval_samples = n, id_to_name = None, prefix = []\<rparr>"

text \<open>The dict comprehension of line 312: a later record overwrites an earlier one.\<close>

definition dict_of :: "('k \<times> 'v) list \<Rightarrow> ('k \<times> 'v) list" where
  "dict_of kvs = foldl (\<lambda>d (k, v). AList.update k v d) [] kvs"

text \<open>The loop of lines 314 to 319; the last argument is \<^verbatim>\<open>eval_table_rows\<close>.\<close>

fun eval_rows_loop :: "(int \<times> string) list option \<Rightarrow> cfg \<Rightarrow> results \<Rightarrow> row list \<Rightarrow> py_error + row list" where
  "eval_rows_loop names cfg [] rows = Inr rows"
| "eval_rows_loop names cfg ((res_id, res) # rest) rows =
     (case names of
        None \<Rightarrow> Inl TypeError
      | Some d \<Rightarrow>
          (case map_of d res_id of
             None \<Rightarrow> Inl KeyError
           | Some file_name \<Rightarrow>
               bindE (log_eval_sample res_id (Join (Root (val_img_path cfg)) file_name) res
                        (class_names cfg))
                 (\<lambda>row. eval_rows_loop names cfg rest (rows @ [row]))))"

definition table_columns :: "cfg \<Rightarrow> string list" where
  "table_columns cfg = ''id'' # ''prediction'' # class_names cfg"

definition log_eval_table_body :: "results \<Rightarrow> cfg \<Rightarrow> wandb_sink py_method" where
  "log_eval_table_body results cfg st =
     (case st of (self, p) \<Rightarrow>
        let max_len = min (int (length results)) (num_eval_samples self);
            (self1, p1) =
              (if max_len > 0 \<and> id_to_name self = None
               then (self\<lparr>id_to_name := Some (dict_of (val_dataset cfg))\<rparr>, emit [BuildDataset] p)
               else (self, p))
        in case eval_rows_loop (id_to_name self1) cfg (py_slice_to results max_len) [] of
             Inl e \<Rightarrow> (Inl e, self1, p1)
           | Inr eval_table_rows \<Rightarrow>
               if eval_table_rows \<noteq> []
               then (Inr (), self1,
                     emit [LogTable ''eval_samples'' (table_columns cfg) eval_table_rows] p1)
               else (Inr (), self1, p1))"

definition log_eval_table :: "results \<Rightarrow> cfg \<Rightarrow> wandb_sink py_method" where
  "log_eval_table results cfg = rank_zero_only (log_eval_table_body results cfg)"

definition NanoDetWandbLogger_info :: "string \<Rightarrow> wandb_sink py_method" where
  "NanoDetWandbLogger_info string = rank_zero_only (\<lambda>st. (Inr (), st))"

text \<open>\<^verbatim>\<open>log_metrics\<close>: \<^verbatim>\<open>super().log_metrics(metrics, step)\<close> is the call to the service.\<close>

definition NanoDetWandbLogger_log_metrics :: "metrics \<Rightarrow> int \<Rightarrow> string \<Rightarrow> wandb_sink py_method" where
  "NanoDetWandbLogger_log_metrics metrics step pre =
     rank_zero_only (\<lambda>(self, p).
       (Inr (), self\<lparr>prefix := pre\<rparr>, emit [WandbLogMetrics metrics step] p))"

definition NanoDetWandbLogger_log_val_results :: "results \<Rightarrow> cfg \<Rightarrow> wandb_sink py_method" where
  "NanoDetWandbLogger_log_val_results results cfg = rank_zero_only (log_eval_table results cfg)"

definition NanoDetWandbLogger_dump_cfg :: "string \<Rightarrow> wandb_sink py_method" where
  "NanoDetWandbLogger_dump_cfg cfg_node = rank_zero_only (\<lambda>st. (Inr (), st))"

text \<open>The calls a training driver makes on the tracking-service sink, and a run of them.\<close>

datatype wandb_op =
    Info string
  | LogMetrics metrics int string
  | LogValResults results cfg
  | DumpCfg string
  | LogEvalTable results cfg

fun wandb_apply :: "wandb_op \<Rightarrow> wandb_sink py_method" where
  "wandb_apply (Info s) = NanoDetWandbLogger_info s"
| "wandb_apply (LogMetrics m step pre) = NanoDetWandbLogger_log_metrics m step pre"
| "wandb_apply (LogValResults r c) = NanoDetWandbLogger_log_val_results r c"
| "wandb_apply (DumpCfg c) = NanoDetWandbLogger_dump_cfg c"
| "wandb_apply (LogEvalTable r c) = log_eval_table r c"

text \<open>An exception goes to the caller; the object and the process stay as the call left them.\<close>

definition wandb_run :: "wandb_sink \<times> process \<Rightarrow> wandb_op list \<Rightarrow> wandb_sink \<times> process" where
  "wandb_run st ops = foldl (\<lambda>st x. snd (wandb_apply x st)) st ops"

definition provider_calls :: "process \<Rightarrow> nat" where
  "provider_calls p = length (filter (\<lambda>e. e = BuildDataset) (trace p))"

definition is_table :: "effect \<Rightarrow> bool" where
  "is_table e = (case e of LogTable k c d \<Rightarrow> True | _ \<Rightarrow> False)"

definition submitted_tables :: "process \<Rightarrow> effect list" where
  "submitted_tables p = filter is_table (trace p)"

section \<open>Invariants used in the proofs\<close>

text \<open>
  The cumulative statistic agrees with a list of updates: the sum and the count are the
  totals over the list, and the average is their quotient whenever the count is positive.
\<close>

definition meter_inv :: "AverageMeter \<Rightarrow> (real \<times> int) list \<Rightarrow> bool" where
  "meter_inv s us =
     (am_sum s = weighted_total us \<and> am_count s = multiplicity_total us
      \<and> (am_count s > 0 \<longrightarrow> am_avg s = am_sum s / of_int (am_count s)))"

text \<open>
  The detections the two nested loops have gone through, each with its class, in order;
  and the invariant of the loops after those: the boxes are the boxes of the qualifying
  ones, the list of sums has one entry per class name holding the sum of the qualifying
  confidences of that class, and the dict of counts has exactly the classes with a
  qualifying detection, each with their number.
\<close>

definition flat_preds :: "class_preds \<Rightarrow> (int \<times> detection) list" where
  "flat_preds preds = concat (map (\<lambda>(cls, ds). map (Pair cls) ds) preds)"

definition seen_confs :: "(int \<times> detection) list \<Rightarrow> int \<Rightarrow> real list" where
  "seen_confs F c = map (\<lambda>p. last (snd p)) (filter (\<lambda>p. fst p = c \<and> qualifies (snd p)) F)"

definition sample_inv :: "string list \<Rightarrow> (int \<times> detection) list \<Rightarrow> sample_acc \<Rightarrow> bool" where
  "sample_inv classes F acc =
     (acc_box_data acc = map (\<lambda>p. box_of classes (fst p) (snd p)) (filter (\<lambda>p. qualifies (snd p)) F)
      \<and> length (avg_conf_per_class acc) = length classes
      \<and> (\<forall>i < length classes. avg_conf_per_class acc ! i = sum_list (seen_confs F (int i)))
      \<and> distinct (map fst (pred_class_count acc))
      \<and> (\<forall>k \<in> set (map fst (pred_class_count acc)). 0 \<le> k \<and> k < int (length classes))
      \<and> (\<forall>c. map_of (pred_class_count acc) c =
                (if seen_confs F c = [] then None else Some (int (length (seen_confs F c))))))"

text \<open>
  The eval table, in the spec's words: the samples selected are the first
  \<open>min(len(results), num_eval_samples)\<close> entries of the results; the table of names a
  call reads is the cached one, or the one built from the dataset when there is none.
  The inputs the table builder is specified for: a sample cap that is not negative, and
  every selected sample known to the dataset and with valid predictions.
\<close>

definition selected_samples :: "wandb_sink \<Rightarrow> results \<Rightarrow> results" where
  "selected_samples self results =
     take (min (length results) (nat (num_eval_samples self))) results"

definition names_in_use :: "wandb_sink \<Rightarrow> cfg \<Rightarrow> (int \<times> string) list" where
  "names_in_use self cfg =
     (case id_to_name self of None \<Rightarrow> dict_of (val_dataset cfg) | Some d \<Rightarrow> d)"

definition table_inputs_ok :: "wandb_sink \<Rightarrow> cfg \<Rightarrow> results \<Rightarrow> bool" where
  "table_inputs_ok self cfg results =
     (0 \<le> num_eval_samples self
      \<and> list_all (\<lambda>(res_id, res). map_of (names_in_use self cfg) res_id \<noteq> None
                     \<and> valid_preds (class_names cfg) res)
          (selected_samples self results))"

section \<open>Properties of the windowed moving average\<close>

lemma push_keeps_window: "window_size (MovingAverage_push s v) = window_size s"
  by (simp add: MovingAverage_push_def Let_def)

lemma reset_keeps_window: "window_size (MovingAverage_reset s) = window_size s"
  by (simp add: MovingAverage_reset_def)

lemma tl_drop_snoc: "tl (drop k ps @ [v]) = drop (Suc k) (ps @ [v])"
proof (cases "k < length ps")
  case True
  then have "drop k ps \<noteq> []" by simp
  then show ?thesis by (simp add: drop_Suc tl_drop tl_append2)
next
  case False
  then show ?thesis by simp
qed

lemma push_suffix:
  assumes "queue s = drop (length ps - nat (window_size s)) ps"
  shows "queue (MovingAverage_push s v) =
           drop (length (ps @ [v]) - nat (window_size s)) (ps @ [v])"
proof (cases "int (length (queue s @ [v])) > window_size s")
  case True
  then have ge: "nat (window_size s) \<le> length ps"
    using assms by (cases "window_size s \<ge> 0") auto
  have "queue (MovingAverage_push s v) = tl (queue s @ [v])"
    using True by (simp add: MovingAverage_push_def Let_def)
  also have "\<dots> = drop (Suc (length ps - nat (window_size s))) (ps @ [v])"
    by (simp only: assms tl_drop_snoc)
  also have "Suc (length ps - nat (window_size s)) = length (ps @ [v]) - nat (window_size s)"
    using ge by simp
  finally show ?thesis .
next
  case False
  then have lt: "length ps < nat (window_size s)"
    using assms by auto
  have "queue (MovingAverage_push s v) = queue s @ [v]"
    using False by (simp add: MovingAverage_push_def Let_def)
  then show ?thesis using lt assms by simp
qed

lemma run_suffix:
  "queue s = drop (length ps - nat (window_size s)) ps \<Longrightarrow>
   queue (foldl ma_apply s ops) =
     drop (length (pushes_since_reset ps ops) - nat (window_size s)) (pushes_since_reset ps ops)
   \<and> window_size (foldl ma_apply s ops) = window_size s"
proof (induction ops arbitrary: s ps)
  case Nil
  then show ?case by simp
next
  case (Cons x ops)
  show ?case
  proof (cases x)
    case (Push v)
    have "queue (MovingAverage_push s v) =
            drop (length (ps @ [v]) - nat (window_size (MovingAverage_push s v))) (ps @ [v])"
      using push_suffix [OF Cons.prems] by (simp only: push_keeps_window)
    from Cons.IH [OF this] show ?thesis
      using Push by (simp add: push_keeps_window)
  next
    case Reset
    have "queue (MovingAverage_reset s) =
            drop (length ([]::real list) - nat (window_size (MovingAverage_reset s))) []"
      by (simp add: MovingAverage_reset_def)
    from Cons.IH [OF this] show ?thesis
      using Reset by (simp add: reset_keeps_window)
  qed
qed

lemma init_window: "window_size (MovingAverage_init v w) = w"
  by (simp add: MovingAverage_init_def push_keeps_window MovingAverage_reset_def)

lemma init_suffix: "queue (MovingAverage_init v w) =
    drop (length [v] - nat (window_size (MovingAverage_init v w))) [v]"
proof -
  let ?s = "MovingAverage_reset \<lparr>window_size = w, queue = []\<rparr>"
  have "queue ?s = drop (length ([]::real list) - nat (window_size ?s)) []"
    by (simp add: MovingAverage_reset_def)
  from push_suffix [OF this, of v] show ?thesis
    by (simp add: init_window) (simp add: MovingAverage_init_def MovingAverage_reset_def)
qed

text \<open>
  C3. For a window size \<open>W \<ge> 1\<close>, after construction and any sequence of pushes and
  resets, the retained values are the last \<open>W\<close> of the values pushed since the most
  recent reset (construction being the first push): their number is the minimum of the
  number of those pushes and \<open>W\<close>, it never exceeds \<open>W\<close>, and a push on a full window
  evicts the oldest retained value and appends the new one.
\<close>

theorem windowed_retains_last_pushes:
  assumes "1 \<le> W"
  shows "let s = ma_run (MovingAverage_init v0 W) ops;
             ps = pushes_since_reset [v0] ops
         in queue s = drop (length ps - nat W) ps
            \<and> length (queue s) = min (length ps) (nat W)
            \<and> int (length (queue s)) \<le> W
            \<and> (int (length (queue s)) = W \<longrightarrow>
                 queue (MovingAverage_push s v) = tl (queue s) @ [v])
            \<and> (int (length (queue s)) < W \<longrightarrow>
                 queue (MovingAverage_push s v) = queue s @ [v])"
proof -
  let ?s = "ma_run (MovingAverage_init v0 W) ops"
  let ?ps = "pushes_since_reset [v0] ops"
  have q: "queue ?s = drop (length ?ps - nat W) ?ps" and w: "window_size ?s = W"
    using run_suffix [OF init_suffix, of v0 W ops]
    by (simp_all add: ma_run_def init_window)
  have len: "length (queue ?s) = min (length ?ps) (nat W)"
    by (simp add: q)
  have bound: "int (length (queue ?s)) \<le> W"
    using len assms by simp
  have full: "int (length (queue ?s)) = W \<Longrightarrow> queue (MovingAverage_push ?s v) = tl (queue ?s) @ [v]"
  proof -
    assume "int (length (queue ?s)) = W"
    then have "queue ?s \<noteq> []" using assms by auto
    then show ?thesis
      using \<open>int (length (queue ?s)) = W\<close> w by (simp add: MovingAverage_push_def Let_def)
  qed
  have room: "int (length (queue ?s)) < W \<Longrightarrow> queue (MovingAverage_push ?s v) = queue ?s @ [v]"
    using w by (simp add: MovingAverage_push_def Let_def)
  show ?thesis
    unfolding Let_def using q len bound full room by blast
qed

theorem windowed_retains_last_pushes_witness:
  "(1::int) \<le> 2 \<and>
   (let s = ma_run (MovingAverage_init 1 2) [Push 2, Push 3, Reset, Push 4, Push 5, Push 6]
   in queue s = [5, 6] \<and> length (queue s) = 2
      \<and> queue (MovingAverage_push s 7) = [6, 7])"
  using windowed_retains_last_pushes [of 2 1 "[Push 2, Push 3, Reset, Push 4, Push 5, Push 6]" 7]
  by (simp add: Let_def)

section \<open>Properties of the cumulative average\<close>

lemma update_result:
  "AverageMeter_update s v n =
     Inr (s\<lparr>am_val := v, am_sum := am_sum s + v * of_int n, am_count := am_count s + n,
            am_avg := (if am_count s + n > 0
                       then (am_sum s + v * of_int n) / of_int (am_count s + n)
                       else am_avg s)\<rparr>)"
  by (simp add: AverageMeter_update_def Let_def bindE_def py_truediv_def)

lemma weighted_total_snoc:
  "weighted_total (us @ [(v, n)]) = weighted_total us + v * of_int n"
  by (simp add: weighted_total_def)

lemma multiplicity_total_snoc:
  "multiplicity_total (us @ [(v, n)]) = multiplicity_total us + n"
  by (simp add: multiplicity_total_def)

lemma meter_inv_run:
  "meter_inv s us \<Longrightarrow> \<exists>s'. am_run (Inr s) ops = Inr s' \<and> meter_inv s' (updates_since_reset us ops)"
proof (induction ops arbitrary: s us)
  case Nil
  then show ?case by simp
next
  case (Cons x ops)
  show ?case
  proof (cases x)
    case (Update v n)
    let ?s = "s\<lparr>am_val := v, am_sum := am_sum s + v * of_int n, am_count := am_count s + n,
            am_avg := (if am_count s + n > 0
                       then (am_sum s + v * of_int n) / of_int (am_count s + n)
                       else am_avg s)\<rparr>"
    have "meter_inv ?s (us @ [(v, n)])"
      using Cons.prems
      by (simp add: meter_inv_def weighted_total_snoc multiplicity_total_snoc)
    from Cons.IH [OF this] show ?thesis
      using Update by (simp add: bindE_def update_result)
  next
    case ResetMeter
    have "meter_inv (AverageMeter_reset s) []"
      by (simp add: meter_inv_def AverageMeter_reset_def weighted_total_def multiplicity_total_def)
    from Cons.IH [OF this] show ?thesis
      using ResetMeter by (simp add: bindE_def)
  qed
qed

lemma multiplicity_total_pos:
  "us \<noteq> [] \<Longrightarrow> \<forall>u \<in> set us. 0 < snd u \<Longrightarrow> 0 < multiplicity_total us"
proof (induction us)
  case Nil
  then show ?case by simp
next
  case (Cons u us)
  then show ?case
    by (cases "us = []") (auto simp: multiplicity_total_def)
qed

text \<open>
  C4. After construction with an initial value (which performs the first update with
  multiplicity 1) and any sequence of updates and resets, the calls all return, \<open>sum\<close>
  is the total of \<open>v * n\<close> and \<open>count\<close> the total of \<open>n\<close> over the updates since
  the last reset, and \<open>avg = sum / count\<close> whenever \<open>count > 0\<close>, which is the case
  when there was an update since the last reset and the multiplicities are positive.
\<close>

theorem cumulative_sum_count_average:
  "\<exists>s. am_run (AverageMeter_init v0) ops = Inr s
       \<and> am_sum s = weighted_total (updates_since_reset [(v0, 1)] ops)
       \<and> am_count s = multiplicity_total (updates_since_reset [(v0, 1)] ops)
       \<and> (am_count s > 0 \<longrightarrow> am_avg s = am_sum s / of_int (am_count s))
       \<and> (updates_since_reset [(v0, 1)] ops \<noteq> []
            \<and> (\<forall>u \<in> set (updates_since_reset [(v0, 1)] ops). 0 < snd u)
          \<longrightarrow> am_count s > 0)"
proof -
  let ?s0 = "AverageMeter_reset \<lparr>am_val = 0, am_avg = 0, am_sum = 0, am_count = 0\<rparr>"
  let ?s1 = "?s0\<lparr>am_val := v0, am_sum := am_sum ?s0 + v0 * of_int 1, am_count := am_count ?s0 + 1,
            am_avg := (if am_count ?s0 + 1 > 0
                       then (am_sum ?s0 + v0 * of_int 1) / of_int (am_count ?s0 + 1)
                       else am_avg ?s0)\<rparr>"
  have init: "AverageMeter_init v0 = Inr ?s1"
    unfolding AverageMeter_init_def by (rule update_result)
  have "meter_inv ?s1 [(v0, 1)]"
    by (simp add: meter_inv_def AverageMeter_reset_def weighted_total_def multiplicity_total_def)
  from meter_inv_run [OF this, of ops] obtain s where
    run: "am_run (Inr ?s1) ops = Inr s" and inv: "meter_inv s (updates_since_reset [(v0, 1)] ops)"
    by blast
  have pos: "updates_since_reset [(v0, 1)] ops \<noteq> []
            \<and> (\<forall>u \<in> set (updates_since_reset [(v0, 1)] ops). 0 < snd u) \<longrightarrow> am_count s > 0"
    using inv multiplicity_total_pos by (simp add: meter_inv_def)
  show ?thesis
    using run inv pos unfolding init meter_inv_def by blast
qed

theorem cumulative_sum_count_average_witness:
  "\<exists>s. am_run (AverageMeter_init 2) [Update 4 3, ResetMeter, Update 1 1, Update 7 2] = Inr s
       \<and> am_sum s = 15 \<and> am_count s = 3 \<and> am_avg s = 5"
  using cumulative_sum_count_average [of 2 "[Update 4 3, ResetMeter, Update 1 1, Update 7 2]"]
  by (auto simp add: weighted_total_def multiplicity_total_def)

text \<open>
  C8. An \<open>update(v, n)\<close> never raises a division by zero: it returns, with \<open>val\<close>,
  \<open>sum\<close> and \<open>count\<close> assigned; the average is recomputed when the count after the
  update is positive and keeps its previous value otherwise.
\<close>

theorem update_never_divides_by_zero:
  "\<exists>s'. AverageMeter_update s v n = Inr s'
        \<and> am_val s' = v
        \<and> am_sum s' = am_sum s + v * of_int n
        \<and> am_count s' = am_count s + n
        \<and> (am_count s' > 0 \<longrightarrow> am_avg s' = am_sum s' / of_int (am_count s'))
        \<and> (\<not> am_count s' > 0 \<longrightarrow> am_avg s' = am_avg s)"
  by (simp add: update_result)

theorem update_never_divides_by_zero_witness:
  "\<exists>s'. AverageMeter_update (AverageMeter_reset \<lparr>am_val = 3, am_avg = 3, am_sum = 3, am_count = 1\<rparr>) 5 0
          = Inr s'
        \<and> am_val s' = 5 \<and> am_sum s' = 0 \<and> am_count s' = 0 \<and> am_avg s' = 0"
  using update_never_divides_by_zero
    [of "AverageMeter_reset \<lparr>am_val = 3, am_avg = 3, am_sum = 3, am_count = 1\<rparr>" 5 0]
  by (auto simp add: AverageMeter_reset_def)

text \<open>
  C7, as stated, fails: after a reset the average of the empty window is not an error,
  it is the value NaN that \<open>np.mean\<close> returns.
\<close>

theorem empty_window_average_counterexample:
  "\<not> isl (MovingAverage_avg (MovingAverage_reset (MovingAverage_init 1 50)))
   \<and> MovingAverage_avg (MovingAverage_reset (MovingAverage_init 1 50)) = Inr NaN"
  by (simp add: MovingAverage_avg_def MovingAverage_reset_def np_mean_def)

text \<open>
  C7, amended. Querying the average of a windowed statistic right after \<open>reset()\<close>
  raises nothing: the call returns NaN.
\<close>

theorem empty_window_average_is_nan:
  "MovingAverage_avg (MovingAverage_reset s) = Inr NaN"
  by (simp add: MovingAverage_avg_def MovingAverage_reset_def np_mean_def)

theorem empty_window_average_is_nan_witness:
  "MovingAverage_avg (MovingAverage_reset (MovingAverage_init 3 2)) = Inr NaN"
  using empty_window_average_is_nan [of "MovingAverage_init 3 2"] by simp

section \<open>Properties of the sample builder\<close>

lemma py_getitem_valid:
  "0 \<le> i \<Longrightarrow> i < int (length xs) \<Longrightarrow> py_getitem xs i = Inr (xs ! nat i)"
  by (simp add: py_getitem_def py_index_def)

lemma py_setitem_valid:
  "0 \<le> i \<Longrightarrow> i < int (length xs) \<Longrightarrow> py_setitem xs i v = Inr (xs[nat i := v])"
  by (simp add: py_setitem_def py_index_def)

lemma bindE_Inr [simp]: "bindE (Inr x) f = f x"
  by (simp add: bindE_def)

lemma bindE_Inl [simp]: "bindE (Inl e) f = Inl e"
  by (simp add: bindE_def)

lemma seen_confs_snoc:
  "seen_confs (F @ [(cls, d)]) c =
     seen_confs F c @ (if cls = c \<and> qualifies d then [last d] else [])"
  by (simp add: seen_confs_def)

lemma detection_body_skip:
  "d \<noteq> [] \<Longrightarrow> \<not> qualifies d \<Longrightarrow> detection_body classes cls acc d = Inr acc"
  by (simp add: detection_body_def unpack_detection_def qualifies_def)

lemma detection_body_take:
  assumes "5 \<le> length d" and "qualifies d" and "0 \<le> cls" and "cls < int (length classes)"
    and "length (avg_conf_per_class acc) = length classes"
  shows "detection_body classes cls acc d =
     Inr \<lparr>acc_box_data = acc_box_data acc @ [box_of classes cls d],
          avg_conf_per_class =
            (avg_conf_per_class acc)[nat cls := avg_conf_per_class acc ! nat cls + last d],
          pred_class_count =
            (case map_of (pred_class_count acc) cls of
               Some c \<Rightarrow> AList.update cls (c + 1) (pred_class_count acc)
             | None \<Rightarrow> AList.update cls 1 (pred_class_count acc))\<rparr>"
proof -
  have ne: "d \<noteq> []" using assms(1) by auto
  have len: "length (butlast d) \<ge> 4" using assms(1) by simp
  have g: "py_getitem (butlast d) 0 = Inr (d ! 0)" "py_getitem (butlast d) 1 = Inr (d ! 1)"
    "py_getitem (butlast d) 2 = Inr (d ! 2)" "py_getitem (butlast d) 3 = Inr (d ! 3)"
    using len by (simp_all add: py_getitem_def py_index_def nth_butlast)
  have c: "py_getitem classes cls = Inr (classes ! nat cls)"
    using assms(3,4) by (rule py_getitem_valid)
  have a: "py_getitem (avg_conf_per_class acc) cls = Inr (avg_conf_per_class acc ! nat cls)"
    using assms(3,4,5) by (simp add: py_getitem_valid)
  have s: "\<And>v. py_setitem (avg_conf_per_class acc) cls v = Inr ((avg_conf_per_class acc)[nat cls := v])"
    using assms(3,4,5) by (simp add: py_setitem_valid)
  show ?thesis
    using assms(2) unfolding detection_body_def qualifies_def
    by (simp add: unpack_detection_def ne g c a s box_of_def Let_def)
qed

lemma sample_inv_skip:
  "sample_inv classes F acc \<Longrightarrow> \<not> qualifies d \<Longrightarrow> sample_inv classes (F @ [(cls, d)]) acc"
  by (simp add: sample_inv_def seen_confs_snoc)

lemma sample_inv_take:
  assumes inv: "sample_inv classes F acc" and q: "qualifies d"
    and lo: "0 \<le> cls" and hi: "cls < int (length classes)"
  shows "sample_inv classes (F @ [(cls, d)])
     \<lparr>acc_box_data = acc_box_data acc @ [box_of classes cls d],
      avg_conf_per_class =
        (avg_conf_per_class acc)[nat cls := avg_conf_per_class acc ! nat cls + last d],
      pred_class_count =
        (case map_of (pred_class_count acc) cls of
           Some c \<Rightarrow> AList.update cls (c + 1) (pred_class_count acc)
         | None \<Rightarrow> AList.update cls 1 (pred_class_count acc))\<rparr>"
    (is "sample_inv _ _ ?acc'")
proof -
  let ?n = "int (length (seen_confs F cls))"
  have cnt: "pred_class_count ?acc' = AList.update cls (?n + 1) (pred_class_count acc)"
    using inv by (simp add: sample_inv_def)
  have boxes: "acc_box_data ?acc' =
      map (\<lambda>p. box_of classes (fst p) (snd p)) (filter (\<lambda>p. qualifies (snd p)) (F @ [(cls, d)]))"
    using inv q by (simp add: sample_inv_def)
  have len: "length (avg_conf_per_class ?acc') = length classes"
    using inv by (simp add: sample_inv_def)
  have sums: "\<forall>i < length classes.
      avg_conf_per_class ?acc' ! i = sum_list (seen_confs (F @ [(cls, d)]) (int i))"
  proof (intro allI impI)
    fix i assume i: "i < length classes"
    have old: "avg_conf_per_class acc ! i = sum_list (seen_confs F (int i))"
      and oldc: "avg_conf_per_class acc ! nat cls = sum_list (seen_confs F (int (nat cls)))"
      using inv i lo hi by (simp_all add: sample_inv_def)
    have l: "length (avg_conf_per_class acc) = length classes"
      using inv by (simp add: sample_inv_def)
    show "avg_conf_per_class ?acc' ! i = sum_list (seen_confs (F @ [(cls, d)]) (int i))"
    proof (cases "cls = int i")
      case True
      then show ?thesis using old i l q by (simp add: seen_confs_snoc)
    next
      case False
      then have "nat cls \<noteq> i" using lo by auto
      then show ?thesis using old False by (simp add: seen_confs_snoc)
    qed
  qed
  have dist: "distinct (map fst (pred_class_count ?acc'))"
    unfolding cnt using inv by (simp add: sample_inv_def distinct_update)
  have keys: "\<forall>k \<in> set (map fst (pred_class_count ?acc')). 0 \<le> k \<and> k < int (length classes)"
    unfolding cnt using inv lo hi by (auto simp add: sample_inv_def update_keys)
  have counts: "\<forall>c. map_of (pred_class_count ?acc') c =
      (if seen_confs (F @ [(cls, d)]) c = [] then None
       else Some (int (length (seen_confs (F @ [(cls, d)]) c))))"
    unfolding cnt using inv q by (simp add: sample_inv_def update_conv' seen_confs_snoc)
  show ?thesis
    unfolding sample_inv_def using boxes len sums dist keys counts by blast
qed

lemma detection_body_inv:
  assumes "sample_inv classes F acc" and "5 \<le> length d"
    and "0 \<le> cls" and "cls < int (length classes)"
  shows "\<exists>acc'. detection_body classes cls acc d = Inr acc'
           \<and> sample_inv classes (F @ [(cls, d)]) acc'"
proof (cases "qualifies d")
  case True
  have l: "length (avg_conf_per_class acc) = length classes"
    using assms(1) by (simp add: sample_inv_def)
  show ?thesis
    using detection_body_take [OF assms(2) True assms(3,4) l]
      sample_inv_take [OF assms(1) True assms(3,4)] by blast
next
  case False
  have "d \<noteq> []" using assms(2) by auto
  then show ?thesis
    using detection_body_skip [OF _ False] sample_inv_skip [OF assms(1) False] by blast
qed

lemma detections_loop_inv:
  assumes "0 \<le> cls" and "cls < int (length classes)"
  shows "sample_inv classes F acc \<Longrightarrow> list_all (\<lambda>d. 5 \<le> length d) ds \<Longrightarrow>
     \<exists>acc'. detections_loop classes cls ds acc = Inr acc'
        \<and> sample_inv classes (F @ map (Pair cls) ds) acc'"
proof (induction ds arbitrary: F acc)
  case Nil
  then show ?case by simp
next
  case (Cons d ds)
  from Cons.prems have d: "5 \<le> length d" and ds: "list_all (\<lambda>d. 5 \<le> length d) ds"
    by simp_all
  from detection_body_inv [OF Cons.prems(1) d assms] obtain acc1 where
    b: "detection_body classes cls acc d = Inr acc1"
    and i: "sample_inv classes (F @ [(cls, d)]) acc1" by blast
  from Cons.IH [OF i ds] show ?case
    using b by simp
qed

lemma classes_loop_inv:
  "sample_inv classes F acc \<Longrightarrow> valid_preds classes preds \<Longrightarrow>
     \<exists>acc'. classes_loop classes preds acc = Inr acc'
        \<and> sample_inv classes (F @ flat_preds preds) acc'"
proof (induction preds arbitrary: F acc)
  case Nil
  then show ?case by (simp add: flat_preds_def)
next
  case (Cons p preds)
  obtain cls ds where p: "p = (cls, ds)" by (cases p)
  from Cons.prems(2) have lo: "0 \<le> cls" and hi: "cls < int (length classes)"
    and ds: "list_all (\<lambda>d. 5 \<le> length d) ds" and rest: "valid_preds classes preds"
    by (simp_all add: valid_preds_def p)
  from detections_loop_inv [OF lo hi Cons.prems(1) ds] obtain acc1 where
    b: "detections_loop classes cls ds acc = Inr acc1"
    and i: "sample_inv classes (F @ map (Pair cls) ds) acc1" by blast
  from Cons.IH [OF i rest] show ?case
    using b by (simp add: p flat_preds_def)
qed

lemma averages_loop_result:
  "distinct (map fst cnt) \<Longrightarrow>
   \<forall>p \<in> set cnt. 0 \<le> fst p \<and> fst p < int (length avgs) \<and> snd p \<noteq> 0 \<Longrightarrow>
   \<exists>avgs'. averages_loop cnt avgs = Inr avgs' \<and> length avgs' = length avgs
      \<and> (\<forall>i < length avgs. avgs' ! i =
            (case map_of cnt (int i) of None \<Rightarrow> avgs ! i
             | Some n \<Rightarrow> avgs ! i / of_int n))"
proof (induction cnt arbitrary: avgs)
  case Nil
  then show ?case by simp
next
  case (Cons p cnt)
  obtain k n where p: "p = (k, n)" by (cases p)
  from Cons.prems have lo: "0 \<le> k" and hi: "k < int (length avgs)" and n: "n \<noteq> 0"
    and notin: "k \<notin> set (map fst cnt)" and dist: "distinct (map fst cnt)"
    by (simp_all add: p)
  let ?a1 = "avgs[nat k := avgs ! nat k / of_int n]"
  have rest: "\<forall>p \<in> set cnt. 0 \<le> fst p \<and> fst p < int (length ?a1) \<and> snd p \<noteq> 0"
    using Cons.prems(2) by simp
  from Cons.IH [OF dist rest] obtain avgs' where
    r: "averages_loop cnt ?a1 = Inr avgs'" and l: "length avgs' = length avgs"
    and v: "\<forall>i < length avgs. avgs' ! i =
            (case map_of cnt (int i) of None \<Rightarrow> ?a1 ! i | Some m \<Rightarrow> ?a1 ! i / of_int m)"
    by auto
  have run: "averages_loop (p # cnt) avgs = Inr avgs'"
    using r n lo hi by (simp add: p py_getitem_valid py_setitem_valid py_truediv_def)
  have none: "map_of cnt k = None"
    using notin by (simp add: map_of_eq_None_iff)
  have vals: "\<forall>i < length avgs. avgs' ! i =
            (case map_of (p # cnt) (int i) of None \<Rightarrow> avgs ! i
             | Some m \<Rightarrow> avgs ! i / of_int m)"
  proof (intro allI impI)
    fix i assume i: "i < length avgs"
    show "avgs' ! i = (case map_of (p # cnt) (int i) of None \<Rightarrow> avgs ! i
             | Some m \<Rightarrow> avgs ! i / of_int m)"
    proof (cases "k = int i")
      case True
      then have "nat k = i" by simp
      then show ?thesis using v i none True hi by (simp add: p)
    next
      case False
      then have "nat k \<noteq> i" using lo by auto
      then show ?thesis using v i False by (simp add: p split: option.splits)
    qed
  qed
  show ?case using run l vals by blast
qed

lemma filter_flat_boxes:
  "map (\<lambda>p. box_of classes (fst p) (snd p)) (filter (\<lambda>p. qualifies (snd p)) (flat_preds preds))
     = expected_boxes classes preds"
proof (induction preds)
  case Nil
  then show ?case by (simp add: flat_preds_def expected_boxes_def)
next
  case (Cons p preds)
  obtain cls ds where p: "p = (cls, ds)" by (cases p)
  have "map (\<lambda>p. box_of classes (fst p) (snd p)) (filter (\<lambda>p. qualifies (snd p)) (map (Pair cls) ds))
          = map (box_of classes cls) (filter qualifies ds)"
    by (induction ds) simp_all
  then show ?case
    using Cons.IH by (simp add: flat_preds_def expected_boxes_def p)
qed

lemma seen_confs_flat: "seen_confs (flat_preds preds) c = qualifying_confs preds c"
proof (induction preds)
  case Nil
  then show ?case by (simp add: flat_preds_def seen_confs_def qualifying_confs_def)
next
  case (Cons p preds)
  obtain cls ds where p: "p = (cls, ds)" by (cases p)
  have "map (\<lambda>p. last (snd p)) (filter (\<lambda>p. fst p = c \<and> qualifies (snd p)) (map (Pair cls) ds))
          = (if cls = c then map last (filter qualifies ds) else [])"
    by (induction ds) auto
  then show ?case
    using Cons.IH by (simp add: flat_preds_def seen_confs_def qualifying_confs_def p)
qed

lemma sample_inv_initial:
  "sample_inv classes []
     \<lparr>acc_box_data = [], avg_conf_per_class = replicate (length classes) 0, pred_class_count = []\<rparr>"
  by (simp add: sample_inv_def seen_confs_def)

lemma log_eval_sample_valid:
  assumes "valid_preds classes preds"
  shows "\<exists>avgs. log_eval_sample sample_id sample_path preds classes =
            Inr (CellId sample_id
                 # CellImage \<lparr>image_path = sample_path, box_data = expected_boxes classes preds,
                     class_labels = enumerate classes, wandb_classes = enumerate classes\<rparr>
                 # map CellNum avgs)
          \<and> length avgs = length classes
          \<and> (\<forall>c < length classes. avgs ! c = expected_average preds (int c))"
proof -
  let ?acc0 = "\<lparr>acc_box_data = [], avg_conf_per_class = replicate (length classes) 0,
                 pred_class_count = []\<rparr>"
  from classes_loop_inv [OF sample_inv_initial assms] obtain acc where
    loop: "classes_loop classes preds ?acc0 = Inr acc"
    and inv: "sample_inv classes (flat_preds preds) acc" by auto
  have boxes: "acc_box_data acc = expected_boxes classes preds"
    using inv by (simp add: sample_inv_def filter_flat_boxes)
  have len: "length (avg_conf_per_class acc) = length classes"
    using inv by (simp add: sample_inv_def)
  have sums: "\<forall>i < length classes. avg_conf_per_class acc ! i = sum_list (qualifying_confs preds (int i))"
    using inv by (simp add: sample_inv_def seen_confs_flat)
  have dist: "distinct (map fst (pred_class_count acc))"
    using inv by (simp add: sample_inv_def)
  have counts: "\<forall>c. map_of (pred_class_count acc) c =
      (if qualifying_confs preds c = [] then None
       else Some (int (length (qualifying_confs preds c))))"
    using inv by (simp add: sample_inv_def seen_confs_flat)
  have keys: "\<forall>k \<in> set (map fst (pred_class_count acc)). 0 \<le> k \<and> k < int (length classes)"
    using inv by (simp add: sample_inv_def)
  have entries: "\<forall>p \<in> set (pred_class_count acc).
      0 \<le> fst p \<and> fst p < int (length (avg_conf_per_class acc)) \<and> snd p \<noteq> 0"
  proof
    fix p assume p: "p \<in> set (pred_class_count acc)"
    then have k: "0 \<le> fst p \<and> fst p < int (length classes)" using keys by auto
    have "map_of (pred_class_count acc) (fst p) = Some (snd p)"
      using dist p by (cases p) simp
    then have "snd p \<noteq> 0" using counts by (auto split: if_splits)
    then show "0 \<le> fst p \<and> fst p < int (length (avg_conf_per_class acc)) \<and> snd p \<noteq> 0"
      using k len by simp
  qed
  from averages_loop_result [OF dist entries] obtain avgs where
    av: "averages_loop (pred_class_count acc) (avg_conf_per_class acc) = Inr avgs"
    and alen: "length avgs = length (avg_conf_per_class acc)"
    and avals: "\<forall>i < length (avg_conf_per_class acc). avgs ! i =
        (case map_of (pred_class_count acc) (int i) of None \<Rightarrow> avg_conf_per_class acc ! i
         | Some n \<Rightarrow> avg_conf_per_class acc ! i / of_int n)"
    by blast
  have vals: "\<forall>c < length classes. avgs ! c = expected_average preds (int c)"
    using avals sums counts len by (simp add: expected_average_def Let_def)
  have "log_eval_sample sample_id sample_path preds classes =
            Inr (CellId sample_id
                 # CellImage \<lparr>image_path = sample_path, box_data = expected_boxes classes preds,
                     class_labels = enumerate classes, wandb_classes = enumerate classes\<rparr>
                 # map CellNum avgs)"
    by (simp add: log_eval_sample_def Let_def loop av boxes)
  then show ?thesis using alen len vals by auto
qed

lemma length_expected_boxes:
  "length (expected_boxes classes preds) = length (concat (map (\<lambda>(cls, ds). filter qualifies ds) preds))"
  by (induction preds) (auto simp: expected_boxes_def)

lemma claimed_sample_row:
  "log_eval_sample 1 sample_path [(0, [[0, 0, 10, 10, 0.9]]), (1, [[5, 5, 8, 8, 0.1]])] [''cat'', ''dog'']
     = Inr [CellId 1,
            CellImage \<lparr>image_path = sample_path,
              box_data = [\<lparr>minX = 0, minY = 0, maxX = 10, maxY = 10, class_id = 0,
                           box_caption = (''cat'', 0.9), class_score = 0.9, domain_tag = ''pixel''\<rparr>],
              class_labels = [(0, ''cat''), (1, ''dog'')],
              wandb_classes = [(0, ''cat''), (1, ''dog'')]\<rparr>,
            CellNum 0.9, CellNum 0]"
  by (simp add: log_eval_sample_def detection_body_def unpack_detection_def py_getitem_def
      py_setitem_def py_index_def py_truediv_def enumerate_def Let_def upt_rec)

text \<open>
  C1. For a per-class detection mapping whose class ids are indices into the class names
  (and whose detections have four coordinates and a confidence), the sample builder
  returns a row whose boxes are, in order, one box for each detection whose confidence
  is at least 0.25, so as many boxes as there are such detections, and whose per-class
  averages are the sum of the qualifying confidences of the class divided by their
  number, and 0 for a class without a qualifying detection. In particular, for the
  predictions \<open>{0: [(0,0,10,10,0.9)], 1: [(5,5,8,8,0.1)]}\<close> of sample 1 and the class
  names cat and dog, the row has exactly one box (class 0, confidence 0.9) and the
  averages 0.9 and 0.
\<close>

theorem eval_sample_boxes_and_averages:
  "(valid_preds classes preds \<longrightarrow>
      (\<exists>img avgs.
          log_eval_sample sample_id sample_path preds classes
            = Inr (CellId sample_id # CellImage img # map CellNum avgs)
          \<and> box_data img = expected_boxes classes preds
          \<and> length (box_data img) = length (concat (map (\<lambda>(cls, ds). filter qualifies ds) preds))
          \<and> length avgs = length classes
          \<and> (\<forall>c < length classes. avgs ! c = expected_average preds (int c))))
   \<and> log_eval_sample 1 sample_path [(0, [[0, 0, 10, 10, 0.9]]), (1, [[5, 5, 8, 8, 0.1]])]
        [''cat'', ''dog'']
      = Inr [CellId 1,
            CellImage \<lparr>image_path = sample_path,
              box_data = [\<lparr>minX = 0, minY = 0, maxX = 10, maxY = 10, class_id = 0,
                           box_caption = (''cat'', 0.9), class_score = 0.9, domain_tag = ''pixel''\<rparr>],
              class_labels = [(0, ''cat''), (1, ''dog'')],
              wandb_classes = [(0, ''cat''), (1, ''dog'')]\<rparr>,
            CellNum 0.9, CellNum 0]"
proof (intro conjI impI)
  assume v: "valid_preds classes preds"
  from log_eval_sample_valid [OF v, of sample_id sample_path] obtain avgs where
    r: "log_eval_sample sample_id sample_path preds classes =
            Inr (CellId sample_id
                 # CellImage \<lparr>image_path = sample_path, box_data = expected_boxes classes preds,
                     class_labels = enumerate classes, wandb_classes = enumerate classes\<rparr>
                 # map CellNum avgs)"
    and l: "length avgs = length classes"
    and a: "\<forall>c < length classes. avgs ! c = expected_average preds (int c)"
    by blast
  let ?img = "\<lparr>image_path = sample_path, box_data = expected_boxes classes preds,
                     class_labels = enumerate classes, wandb_classes = enumerate classes\<rparr>"
  have "box_data ?img = expected_boxes classes preds" by simp
  moreover have "length (box_data ?img)
      = length (concat (map (\<lambda>(cls, ds). filter qualifies ds) preds))"
    by (simp add: length_expected_boxes)
  ultimately show "\<exists>img avgs.
          log_eval_sample sample_id sample_path preds classes
            = Inr (CellId sample_id # CellImage img # map CellNum avgs)
          \<and> box_data img = expected_boxes classes preds
          \<and> length (box_data img) = length (concat (map (\<lambda>(cls, ds). filter qualifies ds) preds))
          \<and> length avgs = length classes
          \<and> (\<forall>c < length classes. avgs ! c = expected_average preds (int c))"
    using r l a by blast
next
  show "log_eval_sample 1 sample_path [(0, [[0, 0, 10, 10, 0.9]]), (1, [[5, 5, 8, 8, 0.1]])]
        [''cat'', ''dog'']
      = Inr [CellId 1,
            CellImage \<lparr>image_path = sample_path,
              box_data = [\<lparr>minX = 0, minY = 0, maxX = 10, maxY = 10, class_id = 0,
                           box_caption = (''cat'', 0.9), class_score = 0.9, domain_tag = ''pixel''\<rparr>],
              class_labels = [(0, ''cat''), (1, ''dog'')],
              wandb_classes = [(0, ''cat''), (1, ''dog'')]\<rparr>,
            CellNum 0.9, CellNum 0]"
    by (rule claimed_sample_row)
qed

theorem eval_sample_boxes_and_averages_witness:
  "valid_preds [''cat'', ''dog''] [(0, [[1, 1, 2, 2, 0.5], [0, 0, 1, 1, 0.75], [0, 0, 1, 1, 0.2]]), (1, [[0, 0, 3, 3, 0.1]])]
   \<and> (\<exists>img avgs.
          log_eval_sample 7 (Root ''x.jpg'')
             [(0, [[1, 1, 2, 2, 0.5], [0, 0, 1, 1, 0.75], [0, 0, 1, 1, 0.2]]), (1, [[0, 0, 3, 3, 0.1]])]
             [''cat'', ''dog'']
            = Inr (CellId 7 # CellImage img # map CellNum avgs)
          \<and> length (box_data img) = 2
          \<and> length avgs = 2 \<and> avgs ! 0 = 0.625 \<and> avgs ! 1 = 0)"
proof -
  have v: "valid_preds [''cat'', ''dog''] [(0, [[1, 1, 2, 2, 0.5], [0, 0, 1, 1, 0.75], [0, 0, 1, 1, 0.2]]), (1, [[0, 0, 3, 3, 0.1]])]"
    by (simp add: valid_preds_def)
  have e0: "expected_average [(0, [[1, 1, 2, 2, 0.5], [0, 0, 1, 1, 0.75], [0, 0, 1, 1, 0.2]]), (1, [[0, 0, 3, 3, 0.1]])] (int 0) = 0.625"
    by (simp add: expected_average_def qualifying_confs_def qualifies_def)
  have e1: "expected_average [(0, [[1, 1, 2, 2, 0.5], [0, 0, 1, 1, 0.75], [0, 0, 1, 1, 0.2]]), (1, [[0, 0, 3, 3, 0.1]])] (int 1) = 0"
    by (simp add: expected_average_def qualifying_confs_def qualifies_def)
  have n: "length (concat (map (\<lambda>(cls, ds). filter qualifies ds)
      [(0::int, [[1, 1, 2, 2, 0.5], [0, 0, 1, 1, 0.75], [0, 0, 1, 1, 0.2]]), (1, [[0, 0, 3, 3, 0.1]])])) = 2"
    by (simp add: qualifies_def)
  from eval_sample_boxes_and_averages
    [of "[''cat'', ''dog'']" "[(0, [[1, 1, 2, 2, 0.5], [0, 0, 1, 1, 0.75], [0, 0, 1, 1, 0.2]]), (1, [[0, 0, 3, 3, 0.1]])]"
        7 "Root ''x.jpg''"] v
  obtain img avgs where
    "log_eval_sample 7 (Root ''x.jpg'')
             [(0, [[1, 1, 2, 2, 0.5], [0, 0, 1, 1, 0.75], [0, 0, 1, 1, 0.2]]), (1, [[0, 0, 3, 3, 0.1]])]
             [''cat'', ''dog'']
            = Inr (CellId 7 # CellImage img # map CellNum avgs)"
    "length (box_data img) = length (concat (map (\<lambda>(cls, ds). filter qualifies ds)
      [(0::int, [[1, 1, 2, 2, 0.5], [0, 0, 1, 1, 0.75], [0, 0, 1, 1, 0.2]]), (1, [[0, 0, 3, 3, 0.1]])]))"
    "length avgs = length [''cat'', ''dog'']"
    "\<forall>c < length [''cat'', ''dog'']. avgs ! c =
       expected_average [(0, [[1, 1, 2, 2, 0.5], [0, 0, 1, 1, 0.75], [0, 0, 1, 1, 0.2]]), (1, [[0, 0, 3, 3, 0.1]])] (int c)"
    by blast
  then show ?thesis
    using v e0 e1 n by (auto simp del: of_nat_0 of_nat_1)
qed

section \<open>Properties of the eval table\<close>

lemma py_setitem_length: "py_setitem xs i v = Inr ys \<Longrightarrow> length ys = length xs"
  by (auto simp: py_setitem_def split: option.splits)

lemma bindE_InrD: "bindE m f = Inr y \<Longrightarrow> \<exists>x. m = Inr x \<and> f x = Inr y"
  by (cases m) simp_all

lemma detection_body_length:
  assumes "detection_body classes cls acc d = Inr acc'"
  shows "length (avg_conf_per_class acc') = length (avg_conf_per_class acc)"
proof -
  from assms obtain xyxy conf where u: "unpack_detection d = Inr (xyxy, conf)"
    and b: "(if conf \<ge> 0.25 then
         bindE (py_getitem xyxy 0) (\<lambda>x0.
         bindE (py_getitem xyxy 1) (\<lambda>x1.
         bindE (py_getitem xyxy 2) (\<lambda>x2.
         bindE (py_getitem xyxy 3) (\<lambda>x3.
         bindE (py_getitem classes cls) (\<lambda>name.
         let box = \<lparr>minX = x0, minY = x1, maxX = x2, maxY = x3, class_id = cls,
                    box_caption = (name, conf), class_score = conf, domain_tag = ''pixel''\<rparr>
         in
         bindE (py_getitem (avg_conf_per_class acc) cls) (\<lambda>a.
         bindE (py_setitem (avg_conf_per_class acc) cls (a + conf)) (\<lambda>avgs.
         Inr \<lparr>acc_box_data = acc_box_data acc @ [box],
              avg_conf_per_class = avgs,
              pred_class_count =
                (case map_of (pred_class_count acc) cls of
                   Some c \<Rightarrow> AList.update cls (c + 1) (pred_class_count acc)
                 | None \<Rightarrow> AList.update cls 1 (pred_class_count acc))\<rparr>)))))))
       else Inr acc) = Inr acc'"
    unfolding detection_body_def by (auto dest!: bindE_InrD)
  show ?thesis
  proof (cases "conf \<ge> 0.25")
    case True
    with b obtain a avgs where s: "py_setitem (avg_conf_per_class acc) cls (a + conf) = Inr avgs"
      and e: "avg_conf_per_class acc' = avgs"
      by (auto simp: Let_def dest!: bindE_InrD)
    then show ?thesis using py_setitem_length [OF s] by simp
  next
    case False
    with b show ?thesis by simp
  qed
qed

lemma detections_loop_length:
  "detections_loop classes cls ds acc = Inr acc' \<Longrightarrow>
     length (avg_conf_per_class acc') = length (avg_conf_per_class acc)"
proof (induction ds arbitrary: acc)
  case Nil
  then show ?case by simp
next
  case (Cons d ds)
  from Cons.prems obtain acc1 where b: "detection_body classes cls acc d = Inr acc1"
    and r: "detections_loop classes cls ds acc1 = Inr acc'"
    by (auto dest!: bindE_InrD)
  show ?case using Cons.IH [OF r] detection_body_length [OF b] by simp
qed

lemma classes_loop_length:
  "classes_loop classes preds acc = Inr acc' \<Longrightarrow>
     length (avg_conf_per_class acc') = length (avg_conf_per_class acc)"
proof (induction preds arbitrary: acc)
  case Nil
  then show ?case by simp
next
  case (Cons p preds)
  obtain cls ds where p: "p = (cls, ds)" by (cases p)
  from Cons.prems obtain acc1 where b: "detections_loop classes cls ds acc = Inr acc1"
    and r: "classes_loop classes preds acc1 = Inr acc'"
    by (auto simp: p dest!: bindE_InrD)
  show ?case using Cons.IH [OF r] detections_loop_length [OF b] by simp
qed

lemma averages_loop_length:
  "averages_loop cnt avgs = Inr avgs' \<Longrightarrow> length avgs' = length avgs"
proof (induction cnt arbitrary: avgs)
  case Nil
  then show ?case by simp
next
  case (Cons p cnt)
  obtain k n where p: "p = (k, n)" by (cases p)
  from Cons.prems obtain a q a1 where s: "py_setitem avgs k q = Inr a1"
    and r: "averages_loop cnt a1 = Inr avgs'"
    by (auto simp: p dest!: bindE_InrD)
  show ?case using Cons.IH [OF r] py_setitem_length [OF s] by simp
qed

lemma log_eval_sample_shape:
  assumes "log_eval_sample sample_id sample_path preds classes = Inr row"
  shows "\<exists>img avgs. row = CellId sample_id # CellImage img # map CellNum avgs
           \<and> length avgs = length classes"
proof -
  let ?acc0 = "\<lparr>acc_box_data = [], avg_conf_per_class = replicate (length classes) 0,
                 pred_class_count = []\<rparr>"
  from assms obtain acc avgs where c: "classes_loop classes preds ?acc0 = Inr acc"
    and a: "averages_loop (pred_class_count acc) (avg_conf_per_class acc) = Inr avgs"
    and r: "row = CellId sample_id
              # CellImage \<lparr>image_path = sample_path, box_data = acc_box_data acc,
                           class_labels = enumerate classes, wandb_classes = enumerate classes\<rparr>
              # map CellNum avgs"
    unfolding log_eval_sample_def Let_def by (auto dest!: bindE_InrD)
  have "length avgs = length classes"
    using classes_loop_length [OF c] averages_loop_length [OF a] by simp
  then show ?thesis using r by blast
qed

lemma eval_rows_loop_shape:
  "eval_rows_loop names cfg rs rows = Inr rows' \<Longrightarrow>
     \<exists>new. rows' = rows @ new \<and> length new = length rs
        \<and> map hd new = map (\<lambda>x. CellId (fst x)) rs
        \<and> (\<forall>r \<in> set new. length r = 2 + length (class_names cfg))"
proof (induction rs arbitrary: rows)
  case Nil
  then show ?case by simp
next
  case (Cons x rs)
  obtain res_id res where x: "x = (res_id, res)" by (cases x)
  from Cons.prems obtain d file_name row where
    s: "log_eval_sample res_id (Join (Root (val_img_path cfg)) file_name) res (class_names cfg) = Inr row"
    and r: "eval_rows_loop names cfg rs (rows @ [row]) = Inr rows'"
    by (auto simp: x split: option.splits dest!: bindE_InrD)
  from log_eval_sample_shape [OF s] obtain img avgs where
    row: "row = CellId res_id # CellImage img # map CellNum avgs"
    and l: "length avgs = length (class_names cfg)" by blast
  from Cons.IH [OF r] obtain new where n: "rows' = (rows @ [row]) @ new"
    "length new = length rs" "map hd new = map (\<lambda>x. CellId (fst x)) rs"
    "\<forall>r \<in> set new. length r = 2 + length (class_names cfg)" by blast
  have "rows' = rows @ (row # new)" using n(1) by simp
  moreover have "length (row # new) = length (x # rs)" using n(2) by simp
  moreover have "map hd (row # new) = map (\<lambda>x. CellId (fst x)) (x # rs)"
    using n(3) by (simp add: row x)
  moreover have "\<forall>r \<in> set (row # new). length r = 2 + length (class_names cfg)"
    using n(4) l by (simp add: row)
  ultimately show ?case by blast
qed

lemma eval_rows_loop_returns:
  "list_all (\<lambda>(res_id, res). map_of d res_id \<noteq> None \<and> valid_preds (class_names cfg) res) rs \<Longrightarrow>
     \<exists>rows'. eval_rows_loop (Some d) cfg rs rows = Inr rows'"
proof (induction rs arbitrary: rows)
  case Nil
  then show ?case by simp
next
  case (Cons x rs)
  obtain res_id res where x: "x = (res_id, res)" by (cases x)
  from Cons.prems obtain file_name where f: "map_of d res_id = Some file_name"
    and v: "valid_preds (class_names cfg) res"
    and rest: "list_all (\<lambda>(res_id, res). map_of d res_id \<noteq> None \<and> valid_preds (class_names cfg) res) rs"
    by (auto simp: x)
  from log_eval_sample_valid [OF v, of res_id "Join (Root (val_img_path cfg)) file_name"]
  obtain row where
    s: "log_eval_sample res_id (Join (Root (val_img_path cfg)) file_name) res (class_names cfg) = Inr row"
    by blast
  from Cons.IH [OF rest, of "rows @ [row]"] show ?case
    by (simp add: x f s)
qed

lemma emit_simps [simp]:
  "rank (emit es p) = rank p"
  "trace (emit es p) = trace p @ es"
  "emit [] p = p"
  "emit es (emit es' p) = emit (es' @ es) p"
  by (simp_all add: emit_def)

lemma submitted_tables_emit:
  "submitted_tables (emit es p) = submitted_tables p @ filter is_table es"
  by (simp add: submitted_tables_def)

lemma provider_calls_emit:
  "provider_calls (emit es p) = provider_calls p + length (filter (\<lambda>e. e = BuildDataset) es)"
  by (simp add: provider_calls_def)

lemma log_eval_table_off_rank:
  "rank p \<noteq> 0 \<Longrightarrow> log_eval_table results cfg (self, p) = (Inr (), self, p)"
  by (simp add: log_eval_table_def rank_zero_only_def)

lemma log_eval_table_build:
  assumes "rank p = 0"
    and B: "min (int (length results)) (num_eval_samples self) > 0 \<and> id_to_name self = None"
  shows "log_eval_table results cfg (self, p) =
     (case eval_rows_loop (Some (dict_of (val_dataset cfg))) cfg
             (py_slice_to results (min (int (length results)) (num_eval_samples self))) [] of
        Inl e \<Rightarrow> (Inl e, self\<lparr>id_to_name := Some (dict_of (val_dataset cfg))\<rparr>,
                  emit [BuildDataset] p)
      | Inr rows \<Rightarrow>
          (Inr (), self\<lparr>id_to_name := Some (dict_of (val_dataset cfg))\<rparr>,
           emit ([BuildDataset] @ (if rows = [] then []
                   else [LogTable ''eval_samples'' (table_columns cfg) rows])) p))"
proof -
  have "log_eval_table results cfg (self, p) = log_eval_table_body results cfg (self, p)"
    using assms(1) by (simp add: log_eval_table_def rank_zero_only_def)
  also have "\<dots> =
     (case eval_rows_loop (Some (dict_of (val_dataset cfg))) cfg
             (py_slice_to results (min (int (length results)) (num_eval_samples self))) [] of
        Inl e \<Rightarrow> (Inl e, self\<lparr>id_to_name := Some (dict_of (val_dataset cfg))\<rparr>,
                  emit [BuildDataset] p)
      | Inr rows \<Rightarrow>
          (Inr (), self\<lparr>id_to_name := Some (dict_of (val_dataset cfg))\<rparr>,
           emit ([BuildDataset] @ (if rows = [] then []
                   else [LogTable ''eval_samples'' (table_columns cfg) rows])) p))"
    unfolding log_eval_table_body_def Let_def prod.case if_P [OF B]
    by (simp split: sum.splits)
  finally show ?thesis .
qed

lemma log_eval_table_cached:
  assumes "rank p = 0"
    and B: "\<not> (min (int (length results)) (num_eval_samples self) > 0 \<and> id_to_name self = None)"
  shows "log_eval_table results cfg (self, p) =
     (case eval_rows_loop (id_to_name self) cfg
             (py_slice_to results (min (int (length results)) (num_eval_samples self))) [] of
        Inl e \<Rightarrow> (Inl e, self, p)
      | Inr rows \<Rightarrow>
          (Inr (), self,
           emit (if rows = [] then []
                   else [LogTable ''eval_samples'' (table_columns cfg) rows]) p))"
proof -
  have "log_eval_table results cfg (self, p) = log_eval_table_body results cfg (self, p)"
    using assms(1) by (simp add: log_eval_table_def rank_zero_only_def)
  also have "\<dots> =
     (case eval_rows_loop (id_to_name self) cfg
             (py_slice_to results (min (int (length results)) (num_eval_samples self))) [] of
        Inl e \<Rightarrow> (Inl e, self, p)
      | Inr rows \<Rightarrow>
          (Inr (), self,
           emit (if rows = [] then []
                   else [LogTable ''eval_samples'' (table_columns cfg) rows]) p))"
    unfolding log_eval_table_body_def Let_def prod.case if_not_P [OF B]
    by (simp split: sum.splits)
  finally show ?thesis .
qed

lemma slice_selected:
  "0 \<le> num_eval_samples self \<Longrightarrow>
     py_slice_to results (min (int (length results)) (num_eval_samples self))
       = selected_samples self results"
proof -
  assume n: "0 \<le> num_eval_samples self"
  have "nat (min (int (length results)) (num_eval_samples self))
          = min (length results) (nat (num_eval_samples self))"
    using n by linarith
  moreover have "0 \<le> min (int (length results)) (num_eval_samples self)"
    using n by simp
  ultimately show ?thesis
    by (simp only: py_slice_to_def selected_samples_def if_True)
qed

lemma length_selected:
  "length (selected_samples self results) = min (length results) (nat (num_eval_samples self))"
  by (simp add: selected_samples_def)

lemma selected_rows:
  assumes ok: "table_inputs_ok self cfg results"
    and names: "names = Some (names_in_use self cfg) \<or> selected_samples self results = []"
  shows "\<exists>rows. eval_rows_loop names cfg (selected_samples self results) [] = Inr rows
           \<and> length rows = min (length results) (nat (num_eval_samples self))
           \<and> map hd rows = map (\<lambda>x. CellId (fst x)) (selected_samples self results)"
proof (cases "selected_samples self results = []")
  case True
  then have "min (length results) (nat (num_eval_samples self)) = 0"
    using length_selected [of self results] by simp
  then show ?thesis using True by simp
next
  case False
  then have n: "names = Some (names_in_use self cfg)" using names by simp
  from ok have "list_all (\<lambda>(res_id, res). map_of (names_in_use self cfg) res_id \<noteq> None
                     \<and> valid_preds (class_names cfg) res) (selected_samples self results)"
    by (simp add: table_inputs_ok_def)
  from eval_rows_loop_returns [OF this, of "[]"] obtain rows where
    r: "eval_rows_loop (Some (names_in_use self cfg)) cfg (selected_samples self results) [] = Inr rows"
    by blast
  from eval_rows_loop_shape [OF r] have "length rows = length (selected_samples self results)"
    and "map hd rows = map (\<lambda>x. CellId (fst x)) (selected_samples self results)"
    by auto
  then show ?thesis using r n length_selected [of self results] by simp
qed

lemma is_table_simps [simp]:
  "is_table (LogTable k c d)" "\<not> is_table BuildDataset" "\<not> is_table (WandbLogMetrics m s)"
  by (simp_all add: is_table_def)

lemma dict_of_keys_aux:
  "fst ` set (foldl (\<lambda>d (k, v). AList.update k v d) d0 kvs) = fst ` set d0 \<union> fst ` set kvs"
proof (induction kvs arbitrary: d0)
  case Nil
  then show ?case by simp
next
  case (Cons kv kvs)
  obtain k v where kv: "kv = (k, v)" by (cases kv)
  show ?case
    by (simp add: kv Cons.IH dom_update)
qed

lemma dict_of_known: "map_of (dict_of kvs) k \<noteq> None \<longleftrightarrow> k \<in> fst ` set kvs"
proof -
  have "map_of (dict_of kvs) k = None \<longleftrightarrow> k \<notin> fst ` set (dict_of kvs)"
    by (rule map_of_eq_None_iff)
  then show ?thesis
    by (simp add: dict_of_def dict_of_keys_aux)
qed

lemma dict_of_known_ex: "(\<exists>y. map_of (dict_of kvs) k = Some y) \<longleftrightarrow> k \<in> fst ` set kvs"
  using dict_of_known [of kvs k] by simp

text \<open>
  C5. On the coordinator, with a sample cap that is not negative and selected samples
  that the dataset knows and whose predictions are valid, the eval-table builder returns
  and has processed exactly \<open>min(len(results), num_eval_samples)\<close> samples: the rows are
  those of the first that many sample ids, in the iteration order of the results, and
  they are what is submitted. With 20 results and a cap of 16 these are the 16 rows of
  the first 16 ids.
\<close>

theorem eval_table_sample_cap:
  assumes "rank p = 0" and "table_inputs_ok self cfg results"
  shows "\<exists>rows self' p'.
           log_eval_table results cfg (self, p) = (Inr (), self', p')
           \<and> length rows = min (length results) (nat (num_eval_samples self))
           \<and> map hd rows = map (\<lambda>x. CellId (fst x))
                             (take (min (length results) (nat (num_eval_samples self))) results)
           \<and> submitted_tables p' = submitted_tables p
                @ (if rows = [] then []
                   else [LogTable ''eval_samples'' (table_columns cfg) rows])"
proof -
  have n: "0 \<le> num_eval_samples self" using assms(2) by (simp add: table_inputs_ok_def)
  note sl = slice_selected [OF n, of results]
  show ?thesis
  proof (cases "min (int (length results)) (num_eval_samples self) > 0 \<and> id_to_name self = None")
    case True
    then have "Some (dict_of (val_dataset cfg)) = Some (names_in_use self cfg)"
      by (simp add: names_in_use_def)
    then obtain rows where
      r: "eval_rows_loop (Some (dict_of (val_dataset cfg))) cfg (selected_samples self results) [] = Inr rows"
      and l: "length rows = min (length results) (nat (num_eval_samples self))"
      and h: "map hd rows = map (\<lambda>x. CellId (fst x)) (selected_samples self results)"
      using selected_rows [OF assms(2), of "Some (dict_of (val_dataset cfg))"] by auto
    have "log_eval_table results cfg (self, p) =
        (Inr (), self\<lparr>id_to_name := Some (dict_of (val_dataset cfg))\<rparr>,
           emit ([BuildDataset] @ (if rows = [] then []
                   else [LogTable ''eval_samples'' (table_columns cfg) rows])) p)"
      unfolding log_eval_table_build [OF assms(1) True] sl r by simp
    then show ?thesis
      using l h by (auto simp: submitted_tables_emit selected_samples_def)
  next
    case False
    have "id_to_name self = Some (names_in_use self cfg) \<or> selected_samples self results = []"
    proof (cases "id_to_name self")
      case None
      then have "\<not> min (int (length results)) (num_eval_samples self) > 0" using False by simp
      then have "min (length results) (nat (num_eval_samples self)) = 0" using n by auto
      then show ?thesis using length_selected [of self results] by simp
    next
      case (Some d)
      then show ?thesis by (simp add: names_in_use_def)
    qed
    from selected_rows [OF assms(2) this] obtain rows where
      r: "eval_rows_loop (id_to_name self) cfg (selected_samples self results) [] = Inr rows"
      and l: "length rows = min (length results) (nat (num_eval_samples self))"
      and h: "map hd rows = map (\<lambda>x. CellId (fst x)) (selected_samples self results)"
      by auto
    have "log_eval_table results cfg (self, p) =
        (Inr (), self,
           emit (if rows = [] then []
                   else [LogTable ''eval_samples'' (table_columns cfg) rows]) p)"
      unfolding log_eval_table_cached [OF assms(1) False] sl r by simp
    then show ?thesis
      using l h by (auto simp: submitted_tables_emit selected_samples_def)
  qed
qed

theorem eval_table_sample_cap_witness:
  "rank \<lparr>rank = 0, tensorboard_installed = True, trace = []\<rparr> = 0
   \<and> table_inputs_ok (NanoDetWandbLogger_init 16)
        \<lparr>class_names = [''cat''], val_img_path = ''val'',
         val_dataset = map (\<lambda>i. (int i, ''img.jpg'')) [0..<20]\<rparr>
        (map (\<lambda>i. (int i, [(0, [[0, 0, 1, 1, 0.5]])])) [0..<20])
   \<and> (\<exists>rows self' p'.
         log_eval_table (map (\<lambda>i. (int i, [(0, [[0, 0, 1, 1, 0.5]])])) [0..<20])
           \<lparr>class_names = [''cat''], val_img_path = ''val'',
            val_dataset = map (\<lambda>i. (int i, ''img.jpg'')) [0..<20]\<rparr>
           (NanoDetWandbLogger_init 16, \<lparr>rank = 0, tensorboard_installed = True, trace = []\<rparr>)
           = (Inr (), self', p')
         \<and> length rows = 16
         \<and> map hd rows = map (\<lambda>i. CellId (int i)) [0..<16]
         \<and> submitted_tables p' = [LogTable ''eval_samples'' [''id'', ''prediction'', ''cat''] rows])"
proof -
  let ?res = "map (\<lambda>i. (int i, [(0::int, [[0, 0, 1, 1, 0.5::real]])])) [0..<20]"
  let ?cfg = "\<lparr>class_names = [''cat''], val_img_path = ''val'',
         val_dataset = map (\<lambda>i. (int i, ''img.jpg'')) [0..<20]\<rparr>"
  let ?self = "NanoDetWandbLogger_init 16"
  let ?p = "\<lparr>rank = 0, tensorboard_installed = True, trace = []\<rparr>"
  have rk: "rank ?p = 0" by simp
  have all: "\<forall>x \<in> set ?res. (\<lambda>(res_id, res). map_of (names_in_use ?self ?cfg) res_id \<noteq> None
                     \<and> valid_preds (class_names ?cfg) res) x"
    by (auto simp: names_in_use_def NanoDetWandbLogger_init_def dict_of_known_ex valid_preds_def
        image_iff)
  have ok: "table_inputs_ok ?self ?cfg ?res"
    unfolding table_inputs_ok_def list_all_iff selected_samples_def
    using all by (auto simp: NanoDetWandbLogger_init_def dest!: in_set_takeD)
  have tk: "take (min (length ?res) (nat (num_eval_samples ?self))) ?res
              = map (\<lambda>i. (int i, [(0::int, [[0, 0, 1, 1, 0.5::real]])])) [0..<16]"
    by (simp add: NanoDetWandbLogger_init_def take_map)
  from eval_table_sample_cap [OF rk ok] obtain rows self' p' where
    1: "log_eval_table ?res ?cfg (?self, ?p) = (Inr (), self', p')"
    and 2: "length rows = min (length ?res) (nat (num_eval_samples ?self))"
    and 3: "map hd rows = map (\<lambda>x. CellId (fst x))
                             (take (min (length ?res) (nat (num_eval_samples ?self))) ?res)"
    and 4: "submitted_tables p' = submitted_tables ?p
                @ (if rows = [] then []
                   else [LogTable ''eval_samples'' (table_columns ?cfg) rows])"
    by blast
  have l: "length rows = 16" using 2 by (simp add: NanoDetWandbLogger_init_def)
  then have ne: "rows \<noteq> []" by auto
  have h: "map hd rows = map (\<lambda>i. CellId (int i)) [0..<16]"
    unfolding 3 tk by (simp add: comp_def)
  have s: "submitted_tables p' = [LogTable ''eval_samples'' [''id'', ''prediction'', ''cat''] rows]"
    using 4 ne by (simp add: submitted_tables_def table_columns_def)
  show ?thesis using rk ok 1 l h s by blast
qed

lemma low_confidence_run:
  "log_eval_table [(1, [(0, [[5, 5, 8, 8, 0.1]])])]
       \<lparr>class_names = [''cat''], val_img_path = ''val'', val_dataset = [(1, ''a.jpg'')]\<rparr>
       (NanoDetWandbLogger_init 16, \<lparr>rank = 0, tensorboard_installed = True, trace = []\<rparr>)
     = (Inr (),
        \<lparr>num_eval_samples = 16, id_to_name = Some [(1, ''a.jpg'')], prefix = []\<rparr>,
        \<lparr>rank = 0, tensorboard_installed = True,
         trace = [BuildDataset,
                  LogTable ''eval_samples'' [''id'', ''prediction'', ''cat'']
                    [[CellId 1,
                      CellImage \<lparr>image_path = Join (Root ''val'') ''a.jpg'', box_data = [],
                        class_labels = [(0, ''cat'')], wandb_classes = [(0, ''cat'')]\<rparr>,
                      CellNum 0]]]\<rparr>)"
  by (simp add: log_eval_table_def rank_zero_only_def log_eval_table_body_def
      NanoDetWandbLogger_init_def dict_of_def py_slice_to_def emit_def table_columns_def
      log_eval_sample_def detection_body_def unpack_detection_def enumerate_def Let_def)

text \<open>
  C6, as stated, fails: with one sample whose only detection has confidence 0.1, below
  0.25, the pipeline still produces the row of that sample and submits the table.
\<close>

theorem zero_qualifying_still_submits_counterexample:
  "\<not> qualifies [5, 5, 8, 8, 0.1]
   \<and> log_eval_table [(1, [(0, [[5, 5, 8, 8, 0.1]])])]
       \<lparr>class_names = [''cat''], val_img_path = ''val'', val_dataset = [(1, ''a.jpg'')]\<rparr>
       (NanoDetWandbLogger_init 16, \<lparr>rank = 0, tensorboard_installed = True, trace = []\<rparr>)
     = (Inr (),
        \<lparr>num_eval_samples = 16, id_to_name = Some [(1, ''a.jpg'')], prefix = []\<rparr>,
        \<lparr>rank = 0, tensorboard_installed = True,
         trace = [BuildDataset,
                  LogTable ''eval_samples'' [''id'', ''prediction'', ''cat'']
                    [[CellId 1,
                      CellImage \<lparr>image_path = Join (Root ''val'') ''a.jpg'', box_data = [],
                        class_labels = [(0, ''cat'')], wandb_classes = [(0, ''cat'')]\<rparr>,
                      CellNum 0]]]\<rparr>)"
  using low_confidence_run by (simp add: qualifies_def)

lemma log_eval_table_submits:
  assumes "log_eval_table results cfg (self, p) = (r, self', p')"
  shows "\<exists>built rows. p' = emit (built @ (if rows = [] then []
                       else [LogTable ''eval_samples'' (table_columns cfg) rows])) p
     \<and> (built = [] \<or> built = [BuildDataset])
     \<and> (rank p \<noteq> 0 \<or> isl r \<longrightarrow> rows = [])
     \<and> (rank p = 0 \<and> \<not> isl r \<longrightarrow>
          length rows = length (py_slice_to results (min (int (length results)) (num_eval_samples self))))
     \<and> (\<forall>row \<in> set rows. length row = 2 + length (class_names cfg))"
proof (cases "rank p = 0")
  case False
  then have "p' = p" "r = Inr ()" using assms by (simp_all add: log_eval_table_off_rank)
  note facts = this
  show ?thesis
    apply (rule exI [of _ "[]"])
    apply (rule exI [of _ "[]"])
    using facts False by simp
next
  case rk: True
  let ?sl = "py_slice_to results (min (int (length results)) (num_eval_samples self))"
  show ?thesis
  proof (cases "min (int (length results)) (num_eval_samples self) > 0 \<and> id_to_name self = None")
    case True
    show ?thesis
    proof (cases "eval_rows_loop (Some (dict_of (val_dataset cfg))) cfg ?sl []")
      case (Inl e)
      then have "p' = emit [BuildDataset] p" "r = Inl e"
        using assms unfolding log_eval_table_build [OF rk True] by simp_all
      note facts = this
      show ?thesis
        apply (rule exI [of _ "[BuildDataset]"])
        apply (rule exI [of _ "[]"])
        using facts by simp
    next
      case (Inr rows)
      then have 1: "p' = emit ([BuildDataset] @ (if rows = [] then []
                   else [LogTable ''eval_samples'' (table_columns cfg) rows])) p" and 2: "r = Inr ()"
        using assms unfolding log_eval_table_build [OF rk True] by simp_all
      from eval_rows_loop_shape [OF Inr] have "length rows = length ?sl"
        and "\<forall>row \<in> set rows. length row = 2 + length (class_names cfg)" by auto
      note facts = this
      show ?thesis
        apply (rule exI [of _ "[BuildDataset]"])
        apply (rule exI [of _ rows])
        using facts 1 2 rk by simp
    qed
  next
    case False
    show ?thesis
    proof (cases "eval_rows_loop (id_to_name self) cfg ?sl []")
      case (Inl e)
      then have "p' = p" "r = Inl e"
        using assms unfolding log_eval_table_cached [OF rk False] by simp_all
      note facts = this
      show ?thesis
        apply (rule exI [of _ "[]"])
        apply (rule exI [of _ "[]"])
        using facts by simp
    next
      case (Inr rows)
      then have 1: "p' = emit ([] @ (if rows = [] then []
                   else [LogTable ''eval_samples'' (table_columns cfg) rows])) p" and 2: "r = Inr ()"
        using assms unfolding log_eval_table_cached [OF rk False] by simp_all
      from eval_rows_loop_shape [OF Inr] have "length rows = length ?sl"
        and "\<forall>row \<in> set rows. length row = 2 + length (class_names cfg)" by auto
      note facts = this
      show ?thesis
        apply (rule exI [of _ "[]"])
        apply (rule exI [of _ rows])
        using facts 1 2 rk by simp
    qed
  qed
qed

text \<open>
  C6, amended. A call of the eval-table pipeline submits at most one table, keyed
  \<open>eval_samples\<close> with the columns id, prediction and the class names, and only when at
  least one row was produced; with zero rows nothing is submitted. A row is produced for
  each selected sample, whether or not any of its detections qualifies: when the call
  returns on the coordinator with a cap that is not negative, the number of rows is
  \<open>min(len(results), num_eval_samples)\<close>. Nothing is submitted off the coordinator or
  when the call raises.
\<close>

theorem eval_table_rows_per_sample:
  assumes "log_eval_table results cfg (self, p) = (r, self', p')"
  shows "(\<exists>rows. submitted_tables p' = submitted_tables p
                    @ (if rows = [] then []
                       else [LogTable ''eval_samples'' (table_columns cfg) rows])
            \<and> (rank p = 0 \<and> \<not> isl r \<and> 0 \<le> num_eval_samples self \<longrightarrow>
                 length rows = min (length results) (nat (num_eval_samples self))))
       \<and> (rank p \<noteq> 0 \<or> isl r \<longrightarrow> submitted_tables p' = submitted_tables p)"
proof -
  from log_eval_table_submits [OF assms] obtain built rows where
    p': "p' = emit (built @ (if rows = [] then []
                       else [LogTable ''eval_samples'' (table_columns cfg) rows])) p"
    and b: "built = [] \<or> built = [BuildDataset]"
    and e: "rank p \<noteq> 0 \<or> isl r \<longrightarrow> rows = []"
    and l: "rank p = 0 \<and> \<not> isl r \<longrightarrow>
          length rows = length (py_slice_to results (min (int (length results)) (num_eval_samples self)))"
    by blast
  have s: "submitted_tables p' = submitted_tables p
                    @ (if rows = [] then []
                       else [LogTable ''eval_samples'' (table_columns cfg) rows])"
    using b unfolding p' by (auto simp: submitted_tables_emit)
  have c: "rank p = 0 \<and> \<not> isl r \<and> 0 \<le> num_eval_samples self \<longrightarrow>
                 length rows = min (length results) (nat (num_eval_samples self))"
    using l by (auto simp: slice_selected length_selected)
  have "rank p \<noteq> 0 \<or> isl r \<longrightarrow> submitted_tables p' = submitted_tables p"
    using s e by simp
  then show ?thesis using s c by blast
qed

theorem eval_table_rows_per_sample_witness:
  "log_eval_table [(1, [(0, [[5, 5, 8, 8, 0.1]])])]
       \<lparr>class_names = [''cat''], val_img_path = ''val'', val_dataset = [(1, ''a.jpg'')]\<rparr>
       (NanoDetWandbLogger_init 16, \<lparr>rank = 0, tensorboard_installed = True, trace = []\<rparr>)
     = (Inr (),
        \<lparr>num_eval_samples = 16, id_to_name = Some [(1, ''a.jpg'')], prefix = []\<rparr>,
        \<lparr>rank = 0, tensorboard_installed = True,
         trace = [BuildDataset,
                  LogTable ''eval_samples'' [''id'', ''prediction'', ''cat'']
                    [[CellId 1,
                      CellImage \<lparr>image_path = Join (Root ''val'') ''a.jpg'', box_data = [],
                        class_labels = [(0, ''cat'')], wandb_classes = [(0, ''cat'')]\<rparr>,
                      CellNum 0]]]\<rparr>)
   \<and> (\<exists>rows. length rows = 1
         \<and> submitted_tables
              \<lparr>rank = 0, tensorboard_installed = True,
               trace = [BuildDataset,
                  LogTable ''eval_samples'' [''id'', ''prediction'', ''cat'']
                    [[CellId 1,
                      CellImage \<lparr>image_path = Join (Root ''val'') ''a.jpg'', box_data = [],
                        class_labels = [(0, ''cat'')], wandb_classes = [(0, ''cat'')]\<rparr>,
                      CellNum 0]]]\<rparr>
            = [LogTable ''eval_samples'' [''id'', ''prediction'', ''cat''] rows])"
  using eval_table_rows_per_sample [OF low_confidence_run] low_confidence_run
  by (auto simp: NanoDetWandbLogger_init_def submitted_tables_def table_columns_def)

text \<open>
  C10. Every row the sample builder returns has \<open>2 + len(class_names)\<close> entries: the
  sample id, the annotated image, then one average per class name; it does return when
  every class id in the predictions is an index into the class names. Every row of a
  table the eval-table builder submits has as many entries as the declared columns
  id, prediction and the class names.
\<close>

theorem eval_row_arity:
  "(valid_preds classes preds \<longrightarrow>
      (\<exists>row. log_eval_sample sample_id sample_path preds classes = Inr row))
   \<and> (log_eval_sample sample_id sample_path preds classes = Inr row \<longrightarrow>
        length row = 2 + length classes
        \<and> (\<exists>img avgs. row = CellId sample_id # CellImage img # map CellNum avgs
              \<and> length avgs = length classes))
   \<and> (log_eval_table results cfg (self, p) = (r, self', p') \<longrightarrow>
        (\<forall>key cols data. LogTable key cols data \<in> set (drop (length (trace p)) (trace p')) \<longrightarrow>
            cols = ''id'' # ''prediction'' # class_names cfg
            \<and> (\<forall>row \<in> set data. length row = length cols)))"
proof (intro conjI impI allI)
  assume "valid_preds classes preds"
  from log_eval_sample_valid [OF this, of sample_id sample_path]
  show "\<exists>row. log_eval_sample sample_id sample_path preds classes = Inr row" by blast
next
  assume a: "log_eval_sample sample_id sample_path preds classes = Inr row"
  from log_eval_sample_shape [OF a]
  show "\<exists>img avgs. row = CellId sample_id # CellImage img # map CellNum avgs
              \<and> length avgs = length classes" .
  then show "length row = 2 + length classes" by auto
next
  fix key cols data
  assume a: "log_eval_table results cfg (self, p) = (r, self', p')"
    and m: "LogTable key cols data \<in> set (drop (length (trace p)) (trace p'))"
  from log_eval_table_submits [OF a] obtain built rows where
    p': "p' = emit (built @ (if rows = [] then []
                       else [LogTable ''eval_samples'' (table_columns cfg) rows])) p"
    and b: "built = [] \<or> built = [BuildDataset]"
    and l: "\<forall>row \<in> set rows. length row = 2 + length (class_names cfg)"
    by blast
  from m b have e: "cols = table_columns cfg \<and> data = rows"
    unfolding p' by (auto split: if_splits)
  then show "cols = ''id'' # ''prediction'' # class_names cfg"
    by (simp add: table_columns_def)
  from e l show "\<forall>row \<in> set data. length row = length cols"
    by (simp add: table_columns_def)
qed

theorem eval_row_arity_witness:
  "valid_preds [''cat'', ''dog''] [(1, [[5, 5, 8, 8, 0.5]])]
   \<and> (\<exists>row. log_eval_sample 3 (Root ''x.jpg'') [(1, [[5, 5, 8, 8, 0.5]])] [''cat'', ''dog''] = Inr row
         \<and> length row = 4)
   \<and> length [CellId 1,
              CellImage \<lparr>image_path = Join (Root ''val'') ''a.jpg'', box_data = [],
                class_labels = [(0, ''cat'')], wandb_classes = [(0, ''cat'')]\<rparr>,
              CellNum 0]
       = length [''id'', ''prediction'', ''cat'']"
proof -
  have v: "valid_preds [''cat'', ''dog''] [(1, [[5, 5, 8, 8, 0.5]])]"
    by (simp add: valid_preds_def)
  note t = eval_row_arity [of "[''cat'', ''dog'']" "[(1, [[5, 5, 8, 8, 0.5]])]" 3 "Root ''x.jpg''"]
  from t v obtain row where
    r: "log_eval_sample 3 (Root ''x.jpg'') [(1, [[5, 5, 8, 8, 0.5]])] [''cat'', ''dog''] = Inr row"
    by blast
  from eval_row_arity [of "[''cat'', ''dog'']" "[(1, [[5, 5, 8, 8, 0.5]])]" 3 "Root ''x.jpg''" row] r
  have "length row = 4" by simp
  moreover from eval_row_arity
    [of _ _ _ _ _ "[(1, [(0, [[5, 5, 8, 8, 0.1]])])]"
       "\<lparr>class_names = [''cat''], val_img_path = ''val'', val_dataset = [(1, ''a.jpg'')]\<rparr>"
       "NanoDetWandbLogger_init 16" "\<lparr>rank = 0, tensorboard_installed = True, trace = []\<rparr>"]
    low_confidence_run
  have "\<forall>key cols data.
         LogTable key cols data \<in> set
           [BuildDataset,
                  LogTable ''eval_samples'' [''id'', ''prediction'', ''cat'']
                    [[CellId 1,
                      CellImage \<lparr>image_path = Join (Root ''val'') ''a.jpg'', box_data = [],
                        class_labels = [(0, ''cat'')], wandb_classes = [(0, ''cat'')]\<rparr>,
                      CellNum 0]]]
         \<longrightarrow> (\<forall>row \<in> set data. length row = length cols)"
    by simp
  then have "length [CellId 1,
              CellImage \<lparr>image_path = Join (Root ''val'') ''a.jpg'', box_data = [],
                class_labels = [(0, ''cat'')], wandb_classes = [(0, ''cat'')]\<rparr>,
              CellNum 0]
       = length [''id'', ''prediction'', ''cat'']"
    by simp
  ultimately show ?thesis using v r by blast
qed

section \<open>The cache of file names\<close>

lemma log_eval_table_cache:
  assumes "log_eval_table results cfg (self, p) = (r, self', p')"
  shows "(rank p = 0 \<and> 0 < min (int (length results)) (num_eval_samples self)
            \<and> id_to_name self = None \<longrightarrow>
          id_to_name self' = Some (dict_of (val_dataset cfg))
          \<and> provider_calls p' = provider_calls p + 1)
       \<and> (\<not> (rank p = 0 \<and> 0 < min (int (length results)) (num_eval_samples self)
               \<and> id_to_name self = None) \<longrightarrow>
          id_to_name self' = id_to_name self \<and> provider_calls p' = provider_calls p)
       \<and> rank p' = rank p"
proof (cases "rank p = 0")
  case False
  then show ?thesis using assms by (simp add: log_eval_table_off_rank)
next
  case rk: True
  show ?thesis
  proof (cases "min (int (length results)) (num_eval_samples self) > 0 \<and> id_to_name self = None")
    case True
    have "id_to_name self' = Some (dict_of (val_dataset cfg))
          \<and> provider_calls p' = provider_calls p + 1 \<and> rank p' = rank p"
      using assms unfolding log_eval_table_build [OF rk True]
      by (auto simp: provider_calls_emit split: sum.splits)
    then show ?thesis using True rk by simp
  next
    case False
    have "id_to_name self' = id_to_name self \<and> provider_calls p' = provider_calls p
          \<and> rank p' = rank p"
      using assms unfolding log_eval_table_cached [OF rk False]
      by (auto simp: provider_calls_emit split: sum.splits)
    then show ?thesis using False by simp
  qed
qed

lemma log_val_results_is_table:
  "NanoDetWandbLogger_log_val_results results cfg st = log_eval_table results cfg st"
  by (simp add: NanoDetWandbLogger_log_val_results_def log_eval_table_def rank_zero_only_def)

lemma wandb_apply_cache:
  assumes "wandb_apply x (self, p) = (r, self', p')"
  shows "rank p' = rank p
     \<and> (id_to_name self \<noteq> None \<longrightarrow>
          id_to_name self' = id_to_name self \<and> provider_calls p' = provider_calls p)
     \<and> (id_to_name self = None \<longrightarrow>
          provider_calls p' = provider_calls p + (if id_to_name self' = None then 0 else 1))"
proof (cases x)
  case (Info s)
  then show ?thesis using assms
    by (auto simp: NanoDetWandbLogger_info_def rank_zero_only_def split: if_splits)
next
  case (LogMetrics m step pre)
  then show ?thesis using assms
    by (auto simp: NanoDetWandbLogger_log_metrics_def rank_zero_only_def provider_calls_emit
        split: if_splits)
next
  case (LogValResults results cfg)
  then have "log_eval_table results cfg (self, p) = (r, self', p')"
    using assms by (simp add: log_val_results_is_table)
  from log_eval_table_cache [OF this] show ?thesis by auto
next
  case (DumpCfg c)
  then show ?thesis using assms
    by (auto simp: NanoDetWandbLogger_dump_cfg_def rank_zero_only_def split: if_splits)
next
  case (LogEvalTable results cfg)
  then have "log_eval_table results cfg (self, p) = (r, self', p')"
    using assms by simp
  from log_eval_table_cache [OF this] show ?thesis by auto
qed

lemma wandb_run_calls:
  "provider_calls p = c + (if id_to_name self = None then 0 else 1) \<Longrightarrow>
   wandb_run (self, p) ops = (self', p') \<Longrightarrow>
   provider_calls p' = c + (if id_to_name self' = None then 0 else 1)"
proof (induction ops arbitrary: self p)
  case Nil
  then show ?case by (simp add: wandb_run_def)
next
  case (Cons x ops)
  obtain r self1 p1 where a: "wandb_apply x (self, p) = (r, self1, p1)"
    by (cases "wandb_apply x (self, p)") auto
  have inv: "provider_calls p1 = c + (if id_to_name self1 = None then 0 else 1)"
    using wandb_apply_cache [OF a] Cons.prems(1) by (auto split: if_splits)
  have "wandb_run (self1, p1) ops = (self', p')"
    using Cons.prems(2) a by (simp add: wandb_run_def)
  from Cons.IH [OF inv this] show ?case .
qed

text \<open>
  C9. The cache from sample id to file name is built at most once in the lifetime of a
  sink. Once it is there, no operation on the sink changes it or calls the dataset
  provider. Over any sequence of operations from construction the provider is called
  once if the cache ends up built and not at all otherwise. A validation-results call
  on a sink without cache builds it, with exactly one provider call, when it runs on
  the coordinator and selects at least one sample, and leaves the sink without cache
  and the provider uncalled otherwise.
\<close>

theorem id_to_name_built_once:
  "(id_to_name self = Some d \<and> wandb_apply x (self, p) = (r, self', p') \<longrightarrow>
      id_to_name self' = Some d \<and> provider_calls p' = provider_calls p)
   \<and> (wandb_run (NanoDetWandbLogger_init n, p0) ops = (self2, p2) \<longrightarrow>
        provider_calls p2 = provider_calls p0 + (if id_to_name self2 = None then 0 else 1))
   \<and> (id_to_name self = None
        \<and> NanoDetWandbLogger_log_val_results results cfg (self, p) = (r3, self3, p3) \<longrightarrow>
        (if rank p = 0 \<and> 0 < min (int (length results)) (num_eval_samples self)
         then id_to_name self3 = Some (dict_of (val_dataset cfg))
              \<and> provider_calls p3 = provider_calls p + 1
         else id_to_name self3 = None \<and> provider_calls p3 = provider_calls p))"
proof (intro conjI impI)
  assume a: "id_to_name self = Some d \<and> wandb_apply x (self, p) = (r, self', p')"
  then have "wandb_apply x (self, p) = (r, self', p')" by simp
  from wandb_apply_cache [OF this] a
  show "id_to_name self' = Some d" and "provider_calls p' = provider_calls p" by auto
next
  assume a: "wandb_run (NanoDetWandbLogger_init n, p0) ops = (self2, p2)"
  have "provider_calls p0
          = provider_calls p0 + (if id_to_name (NanoDetWandbLogger_init n) = None then 0 else 1)"
    by (simp add: NanoDetWandbLogger_init_def)
  from wandb_run_calls [OF this a]
  show "provider_calls p2 = provider_calls p0 + (if id_to_name self2 = None then 0 else 1)" .
next
  assume a: "id_to_name self = None
        \<and> NanoDetWandbLogger_log_val_results results cfg (self, p) = (r3, self3, p3)"
  then have "log_eval_table results cfg (self, p) = (r3, self3, p3)"
    by (simp add: log_val_results_is_table)
  from log_eval_table_cache [OF this] a
  show "if rank p = 0 \<and> 0 < min (int (length results)) (num_eval_samples self)
         then id_to_name self3 = Some (dict_of (val_dataset cfg))
              \<and> provider_calls p3 = provider_calls p + 1
         else id_to_name self3 = None \<and> provider_calls p3 = provider_calls p"
    by auto
qed

lemma empty_results_no_build:
  "NanoDetWandbLogger_log_val_results []
     \<lparr>class_names = [''cat''], val_img_path = ''val'', val_dataset = [(1, ''a.jpg'')]\<rparr>
     (NanoDetWandbLogger_init 16, \<lparr>rank = 0, tensorboard_installed = True, trace = []\<rparr>)
   = (Inr (), NanoDetWandbLogger_init 16, \<lparr>rank = 0, tensorboard_installed = True, trace = []\<rparr>)"
  by (simp add: NanoDetWandbLogger_log_val_results_def log_eval_table_def rank_zero_only_def
      log_eval_table_body_def NanoDetWandbLogger_init_def py_slice_to_def Let_def)

lemma first_selection_builds:
  "NanoDetWandbLogger_log_val_results [(1, [])]
     \<lparr>class_names = [''cat''], val_img_path = ''val'', val_dataset = [(1, ''a.jpg'')]\<rparr>
     (NanoDetWandbLogger_init 16, \<lparr>rank = 0, tensorboard_installed = True, trace = []\<rparr>)
   = (Inr (),
      \<lparr>num_eval_samples = 16, id_to_name = Some [(1, ''a.jpg'')], prefix = []\<rparr>,
      \<lparr>rank = 0, tensorboard_installed = True,
       trace = [BuildDataset,
                LogTable ''eval_samples'' [''id'', ''prediction'', ''cat'']
                  [[CellId 1,
                    CellImage \<lparr>image_path = Join (Root ''val'') ''a.jpg'', box_data = [],
                      class_labels = [(0, ''cat'')], wandb_classes = [(0, ''cat'')]\<rparr>,
                    CellNum 0]]]\<rparr>)"
  by (simp add: NanoDetWandbLogger_log_val_results_def log_eval_table_def rank_zero_only_def
      log_eval_table_body_def
      NanoDetWandbLogger_init_def dict_of_def py_slice_to_def emit_def table_columns_def
      log_eval_sample_def enumerate_def Let_def)

lemma cached_names_reused:
  "NanoDetWandbLogger_log_val_results [(1, [])]
     \<lparr>class_names = [''cat''], val_img_path = ''val'', val_dataset = [(1, ''b.jpg'')]\<rparr>
     (\<lparr>num_eval_samples = 16, id_to_name = Some [(1, ''a.jpg'')], prefix = []\<rparr>,
      \<lparr>rank = 0, tensorboard_installed = True, trace = t\<rparr>)
   = (Inr (),
      \<lparr>num_eval_samples = 16, id_to_name = Some [(1, ''a.jpg'')], prefix = []\<rparr>,
      \<lparr>rank = 0, tensorboard_installed = True,
       trace = t @ [LogTable ''eval_samples'' [''id'', ''prediction'', ''cat'']
                  [[CellId 1,
                    CellImage \<lparr>image_path = Join (Root ''val'') ''a.jpg'', box_data = [],
                      class_labels = [(0, ''cat'')], wandb_classes = [(0, ''cat'')]\<rparr>,
                    CellNum 0]]]\<rparr>)"
  by (simp add: NanoDetWandbLogger_log_val_results_def log_eval_table_def rank_zero_only_def
      log_eval_table_body_def
      py_slice_to_def emit_def table_columns_def
      log_eval_sample_def enumerate_def Let_def)

theorem id_to_name_built_once_witness:
  "(let st = wandb_apply
        (LogValResults [(1, [])]
           \<lparr>class_names = [''cat''], val_img_path = ''val'', val_dataset = [(1, ''b.jpg'')]\<rparr>)
        (\<lparr>num_eval_samples = 16, id_to_name = Some [(1, ''a.jpg'')], prefix = []\<rparr>,
         \<lparr>rank = 0, tensorboard_installed = True, trace = [BuildDataset]\<rparr>)
    in id_to_name (fst (snd st)) = Some [(1, ''a.jpg'')] \<and> provider_calls (snd (snd st)) = 1)
   \<and> (let st = wandb_run
        (NanoDetWandbLogger_init 16, \<lparr>rank = 0, tensorboard_installed = True, trace = []\<rparr>)
        [LogValResults []
           \<lparr>class_names = [''cat''], val_img_path = ''val'', val_dataset = [(1, ''a.jpg'')]\<rparr>,
         LogValResults [(1, [])]
           \<lparr>class_names = [''cat''], val_img_path = ''val'', val_dataset = [(1, ''a.jpg'')]\<rparr>,
         LogValResults [(1, [])]
           \<lparr>class_names = [''cat''], val_img_path = ''val'', val_dataset = [(1, ''b.jpg'')]\<rparr>]
    in id_to_name (fst st) = Some [(1, ''a.jpg'')] \<and> provider_calls (snd st) = 1)
   \<and> (let st = NanoDetWandbLogger_log_val_results [(1, [])]
           \<lparr>class_names = [''cat''], val_img_path = ''val'', val_dataset = [(1, ''a.jpg'')]\<rparr>
           (NanoDetWandbLogger_init 16, \<lparr>rank = 0, tensorboard_installed = True, trace = []\<rparr>)
    in id_to_name (fst (snd st)) = Some [(1, ''a.jpg'')] \<and> provider_calls (snd (snd st)) = 1)"
proof -
  let ?cfgA = "\<lparr>class_names = [''cat''], val_img_path = ''val'', val_dataset = [(1, ''a.jpg'')]\<rparr>"
  let ?cfgB = "\<lparr>class_names = [''cat''], val_img_path = ''val'', val_dataset = [(1, ''b.jpg'')]\<rparr>"
  let ?p0 = "\<lparr>rank = 0, tensorboard_installed = True, trace = []\<rparr>"
  let ?p1 = "\<lparr>rank = 0, tensorboard_installed = True, trace = [BuildDataset]\<rparr>"
  let ?self1 = "\<lparr>num_eval_samples = 16, id_to_name = Some [(1, ''a.jpg'')], prefix = []\<rparr>"
  let ?st1 = "wandb_apply (LogValResults [(1, [])] ?cfgB) (?self1, ?p1)"
  let ?ops = "[LogValResults [] ?cfgA, LogValResults [(1, [])] ?cfgA, LogValResults [(1, [])] ?cfgB]"
  let ?st2 = "wandb_run (NanoDetWandbLogger_init 16, ?p0) ?ops"
  let ?st3 = "NanoDetWandbLogger_log_val_results [(1, [])] ?cfgA (NanoDetWandbLogger_init 16, ?p0)"
  have c1: "provider_calls ?p1 = 1" by (simp add: provider_calls_def)
  have c0: "provider_calls ?p0 = 0" by (simp add: provider_calls_def)
  have e1: "wandb_apply (LogValResults [(1, [])] ?cfgB) (?self1, ?p1)
              = (fst ?st1, fst (snd ?st1), snd (snd ?st1))" by simp
  have s1: "id_to_name ?self1 = Some [(1, ''a.jpg'')]" by simp
  from id_to_name_built_once
      [of ?self1 "[(1, ''a.jpg'')]" "LogValResults [(1, [])] ?cfgB" ?p1
          "fst ?st1" "fst (snd ?st1)" "snd (snd ?st1)"] s1 e1
  have 1: "id_to_name (fst (snd ?st1)) = Some [(1, ''a.jpg'')] \<and> provider_calls (snd (snd ?st1)) = 1"
    unfolding c1 by blast
  have i2: "id_to_name (fst ?st2) = Some [(1, ''a.jpg'')]"
    unfolding wandb_run_def
    by (simp add: empty_results_no_build first_selection_builds cached_names_reused)
  have e2: "wandb_run (NanoDetWandbLogger_init 16, ?p0) ?ops = (fst ?st2, snd ?st2)" by simp
  from id_to_name_built_once [of _ _ _ _ _ _ _ 16 ?p0 ?ops "fst ?st2" "snd ?st2"] e2
  have "provider_calls (snd ?st2) = provider_calls ?p0 + (if id_to_name (fst ?st2) = None then 0 else 1)"
    by blast
  then have 2: "provider_calls (snd ?st2) = 1"
    unfolding i2 c0 by simp
  have e3: "?st3 = (fst ?st3, fst (snd ?st3), snd (snd ?st3))" by simp
  have s3: "id_to_name (NanoDetWandbLogger_init 16) = None" by (simp add: NanoDetWandbLogger_init_def)
  have g3: "rank ?p0 = 0 \<and> 0 < min (int (length [(1::int, []::class_preds)])) (num_eval_samples (NanoDetWandbLogger_init 16))"
    by (simp add: NanoDetWandbLogger_init_def)
  have d3: "dict_of (val_dataset ?cfgA) = [(1, ''a.jpg'')]" by (simp add: dict_of_def)
  from id_to_name_built_once
      [of "NanoDetWandbLogger_init 16" _ _ ?p0 _ _ _ _ _ _ _ _ "[(1, [])]" ?cfgA
          "fst ?st3" "fst (snd ?st3)" "snd (snd ?st3)"] s3 e3
  have "if rank ?p0 = 0 \<and> 0 < min (int (length [(1::int, []::class_preds)])) (num_eval_samples (NanoDetWandbLogger_init 16))
         then id_to_name (fst (snd ?st3)) = Some (dict_of (val_dataset ?cfgA))
              \<and> provider_calls (snd (snd ?st3)) = provider_calls ?p0 + 1
         else id_to_name (fst (snd ?st3)) = None \<and> provider_calls (snd (snd ?st3)) = provider_calls ?p0"
    by blast
  then have 3: "id_to_name (fst (snd ?st3)) = Some [(1, ''a.jpg'')] \<and> provider_calls (snd (snd ?st3)) = 1"
    unfolding if_P [OF g3] d3 c0 by simp
  show ?thesis unfolding Let_def using 1 i2 2 3 by blast
qed

section \<open>The rank gate\<close>

text \<open>
  C2. On a process whose rank is not 0, each write operation the two sinks define
  (\<open>log\<close>, \<open>log_metrics\<close>, \<open>dump_cfg\<close>, \<open>log_hyperparams\<close> and \<open>info\<close> of the
  structured sink; \<open>log_metrics\<close>, \<open>dump_cfg\<close>, \<open>info\<close> and \<open>log_val_results\<close> of
  the tracking-service sink) returns with the sink and the process unchanged: the trace
  of files written and of calls to the outside is the same as before.
\<close>

theorem non_coordinator_writes_are_noops:
  assumes "rank p \<noteq> 0"
  shows "NanoDetLightningLogger_log string (self, p) = (Inr (), self, p)
       \<and> NanoDetLightningLogger_log_metrics metrics step pre (self, p) = (Inr (), self, p)
       \<and> NanoDetLightningLogger_dump_cfg cfg_node (self, p) = (Inr (), self, p)
       \<and> NanoDetLightningLogger_log_hyperparams params (self, p) = (Inr (), self, p)
       \<and> NanoDetLightningLogger_info string (self, p) = (Inr (), self, p)
       \<and> NanoDetWandbLogger_log_metrics metrics step pre (w, p) = (Inr (), w, p)
       \<and> NanoDetWandbLogger_dump_cfg cfg_node (w, p) = (Inr (), w, p)
       \<and> NanoDetWandbLogger_info string (w, p) = (Inr (), w, p)
       \<and> NanoDetWandbLogger_log_val_results results cfg (w, p) = (Inr (), w, p)"
  using assms
  by (simp add: rank_zero_only_def NanoDetLightningLogger_log_def
      NanoDetLightningLogger_log_metrics_def NanoDetLightningLogger_dump_cfg_def
      NanoDetLightningLogger_log_hyperparams_def NanoDetLightningLogger_info_def
      NanoDetWandbLogger_log_metrics_def NanoDetWandbLogger_dump_cfg_def
      NanoDetWandbLogger_info_def NanoDetWandbLogger_log_val_results_def)

theorem non_coordinator_writes_are_noops_witness:
  "rank \<lparr>rank = 1, tensorboard_installed = True, trace = []\<rparr> \<noteq> 0
   \<and> NanoDetLightningLogger_log ''epoch done''
        (\<lparr>ll_name = ''NanoDet'', ll_version = ''v'', ll_log_dir = Root ''logs'',
          ll_logger = False, ll_experiment = False\<rparr>,
         \<lparr>rank = 1, tensorboard_installed = True, trace = []\<rparr>)
      = (Inr (),
         \<lparr>ll_name = ''NanoDet'', ll_version = ''v'', ll_log_dir = Root ''logs'',
          ll_logger = False, ll_experiment = False\<rparr>,
         \<lparr>rank = 1, tensorboard_installed = True, trace = []\<rparr>)
   \<and> NanoDetLightningLogger_log_metrics [(''mAP'', 0.5)] 3 ''Val_metrics/''
        (\<lparr>ll_name = ''NanoDet'', ll_version = ''v'', ll_log_dir = Root ''logs'',
          ll_logger = False, ll_experiment = False\<rparr>,
         \<lparr>rank = 1, tensorboard_installed = True, trace = []\<rparr>)
      = (Inr (),
         \<lparr>ll_name = ''NanoDet'', ll_version = ''v'', ll_log_dir = Root ''logs'',
          ll_logger = False, ll_experiment = False\<rparr>,
         \<lparr>rank = 1, tensorboard_installed = True, trace = []\<rparr>)
   \<and> NanoDetWandbLogger_log_metrics [(''mAP'', 0.5)] 3 ''Val''
        (NanoDetWandbLogger_init 16, \<lparr>rank = 1, tensorboard_installed = True, trace = []\<rparr>)
      = (Inr (), NanoDetWandbLogger_init 16, \<lparr>rank = 1, tensorboard_installed = True, trace = []\<rparr>)"
  using non_coordinator_writes_are_noops
    [of "\<lparr>rank = 1, tensorboard_installed = True, trace = []\<rparr>" "''epoch done''"
        "\<lparr>ll_name = ''NanoDet'', ll_version = ''v'', ll_log_dir = Root ''logs'',
          ll_logger = False, ll_experiment = False\<rparr>"
        "[(''mAP'', 0.5)]" 3 "''Val_metrics/''"]
    non_coordinator_writes_are_noops
    [of "\<lparr>rank = 1, tensorboard_installed = True, trace = []\<rparr>" _ _
        "[(''mAP'', 0.5)]" 3 "''Val''" _ _ "NanoDetWandbLogger_init 16"]
  by simp

lemma coordinator_log_metrics_writes:
  "NanoDetLightningLogger_log_metrics [(''mAP'', 0.5)] 3 ''Val_metrics/''
        (\<lparr>ll_name = ''NanoDet'', ll_version = ''v'', ll_log_dir = Root ''logs'',
          ll_logger = True, ll_experiment = False\<rparr>,
         \<lparr>rank = 0, tensorboard_installed = True, trace = []\<rparr>)
      = (Inr (),
         \<lparr>ll_name = ''NanoDet'', ll_version = ''v'', ll_log_dir = Root ''logs'',
          ll_logger = True, ll_experiment = True\<rparr>,
         \<lparr>rank = 0, tensorboard_installed = True,
          trace = [LogFile (Join (Root ''logs'') ''logs.txt'') (MetricsLine ''Val_metrics/'' [(''mAP'', 0.5)]),
                   Console (MetricsLine ''Val_metrics/'' [(''mAP'', 0.5)]),
                   SummaryWriterOpen (Root ''logs''),
                   AddScalars ''Val_metrics/mAP'' ''Val'' 0.5 3]\<rparr>)"
  by (simp add: NanoDetLightningLogger_log_metrics_def rank_zero_only_def thenM_def
      logger_info_def add_scalars_def experiment_property_def emit_def)

end
